theory Spec2Isabelle
  imports Main "HOL-Library.Sublist" "HOL-Library.Word"
begin

section \<open>Python values used by the snapshot client\<close>

text \<open>
  The client script \<^verbatim>\<open>snapshots.py\<close> talks to the remote side through
  \<^verbatim>\<open>gdb.execute('monitor snapshot;...', to_string=True)\<close> and interprets the
  textual answers with Python's built-in string functions. This section embeds those
  built-ins for strings over the code points 0 to 255 (a \<open>char\<close> is the code point of
  that number); the later sections embed the script itself.

  Exceptions are values: a \<^verbatim>\<open>gdb.GdbError\<close> carries its message,
  \<open>ValueError\<close>, \<open>IndexError\<close> and \<open>OSError\<close> are the Python exceptions that the
  script lets escape, and \<open>NoInvoke\<close> is the error that gdb itself reports when a
  command object has no \<^verbatim>\<open>invoke\<close> method.
\<close>

datatype error = GdbError string | ValueError | IndexError | OSError | NoInvoke

type_synonym byte = "8 word"

subsection \<open>Substring test\<close>

text \<open>\<^verbatim>\<open>sub in s\<close> for strings.\<close>

fun str_in :: "string \<Rightarrow> string \<Rightarrow> bool" where
  "str_in sub [] = (sub = [])"
| "str_in sub (c # cs) = (prefix sub (c # cs) \<or> str_in sub cs)"

subsection \<open>Integer literals: \<^verbatim>\<open>int(s)\<close> and \<^verbatim>\<open>int(s, 16)\<close>\<close>

text \<open>
  \<^verbatim>\<open>int\<close> on a string: optional surrounding whitespace, an optional sign, for
  base 16 an optional \<^verbatim>\<open>0x\<close> prefix, then at least one digit, with single
  underscores allowed between digits (and directly after the prefix). Anything else raises
  \<^verbatim>\<open>ValueError\<close>, which is \<open>None\<close> here. The configurable limit on the number
  of decimal digits is not part of the model.

  The whitespace that \<^verbatim>\<open>int\<close> strips is the six ASCII blanks and, among the
  code points from 128 to 255, the next-line character U+0085 and the no-break space
  U+00A0; the separators U+001C to U+001F are not stripped. The blanks that
  \<^verbatim>\<open>bytes.fromhex\<close> skips are the six ASCII ones only.
\<close>

definition py_isspace :: "char \<Rightarrow> bool" where
  "py_isspace c = (c \<in> set [CHR 0x20, CHR 0x09, CHR 0x0A, CHR 0x0B, CHR 0x0C, CHR 0x0D])"

definition int_isspace :: "char \<Rightarrow> bool" where
  "int_isspace c = (py_isspace c \<or> c = CHR 0x85 \<or> c = CHR 0xA0)"

definition digit_value :: "char \<Rightarrow> nat option" where
  "digit_value c =
     (let n = (of_char c :: nat) in
      if 48 \<le> n \<and> n \<le> 57 then Some (n - 48)
      else if 97 \<le> n \<and> n \<le> 122 then Some (n - 87)
      else if 65 \<le> n \<and> n \<le> 90 then Some (n - 55)
      else None)"

definition is_digit :: "nat \<Rightarrow> char \<Rightarrow> bool" where
  "is_digit base c = (case digit_value c of None \<Rightarrow> False | Some d \<Rightarrow> d < base)"

text \<open>
  The digit scanner: \<open>prev_us\<close> tells that the previous character was an underscore,
  \<open>acc\<close> is the value read so far and \<open>n\<close> the number of digits read. It stops at the
  first character that is neither a digit of the base nor an underscore.
\<close>

fun scan_digits :: "nat \<Rightarrow> bool \<Rightarrow> nat \<Rightarrow> nat \<Rightarrow> string \<Rightarrow> (nat \<times> nat \<times> string) option" where
  "scan_digits base prev_us acc n [] = (if prev_us then None else Some (acc, n, []))"
| "scan_digits base prev_us acc n (c # cs) =
     (if c = CHR ''_'' then
        (if prev_us then None else scan_digits base True acc n cs)
      else if is_digit base c then
        scan_digits base False (acc * base + the (digit_value c)) (Suc n) cs
      else if prev_us then None
      else Some (acc, n, c # cs))"

definition strip_sign :: "string \<Rightarrow> bool \<times> string" where
  "strip_sign s =
     (case s of
        [] \<Rightarrow> (False, [])
      | c # cs \<Rightarrow> if c = CHR ''+'' then (False, cs)
                 else if c = CHR ''-'' then (True, cs)
                 else (False, c # cs))"

definition strip_prefix :: "nat \<Rightarrow> string \<Rightarrow> string" where
  "strip_prefix base s =
     (if base = 16 \<and> (prefix ''0x'' s \<or> prefix ''0X'' s) then
        (let t = drop 2 s in if prefix ''_'' t then drop 1 t else t)
      else s)"

definition py_int_base :: "nat \<Rightarrow> string \<Rightarrow> int option" where
  "py_int_base base s =
     (let (neg, s2) = strip_sign (dropWhile int_isspace s);
          s3 = strip_prefix base s2
      in if prefix ''_'' s3 then None
         else case scan_digits base False 0 0 s3 of
                None \<Rightarrow> None
              | Some (v, n, rest) \<Rightarrow>
                  if n = 0 then None
                  else if dropWhile int_isspace rest \<noteq> [] then None
                  else Some (if neg then - int v else int v))"

definition py_int :: "string \<Rightarrow> int option" where
  "py_int s = py_int_base 10 s"

definition py_int16 :: "string \<Rightarrow> int option" where
  "py_int16 s = py_int_base 16 s"

subsection \<open>\<^verbatim>\<open>str(n)\<close> for integers\<close>

definition digit_char :: "nat \<Rightarrow> char" where
  "digit_char d = ''0123456789'' ! d"

function str_nat :: "nat \<Rightarrow> string" where
  "str_nat n = (if n < 10 then [digit_char n] else str_nat (n div 10) @ [digit_char (n mod 10)])"
  by pat_completeness auto
termination
  by (relation "measure id") auto

declare str_nat.simps [simp del]

definition str_int :: "int \<Rightarrow> string" where
  "str_int i = (if i < 0 then CHR ''-'' # str_nat (nat (- i)) else str_nat (nat i))"

subsection \<open>\<^verbatim>\<open>str.splitlines\<close> and \<^verbatim>\<open>str.split\<close>\<close>

text \<open>
  The line boundaries of \<^verbatim>\<open>str.splitlines\<close> among the code points 0 to 255:
  line feed, carriage return, vertical tab, form feed, the separators U+001C to U+001E
  and the next-line character U+0085. A carriage return directly followed by a line feed
  is one boundary. A boundary at the very end of the text does not open a further, empty
  line.
\<close>

definition is_linebreak :: "char \<Rightarrow> bool" where
  "is_linebreak c =
     (c \<in> set [CHR 0x0A, CHR 0x0D, CHR 0x0B, CHR 0x0C, CHR 0x1C, CHR 0x1D, CHR 0x1E, CHR 0x85])"

fun splitlines_from :: "string \<Rightarrow> string \<Rightarrow> string list" where
  "splitlines_from cur [] = (if cur = [] then [] else [cur])"
| "splitlines_from cur (c # cs) =
     (if is_linebreak c then
        cur # splitlines_from []
                (if c = CHR 0x0D \<and> prefix [CHR 0x0A] cs then drop 1 cs else cs)
      else splitlines_from (cur @ [c]) cs)"

definition splitlines :: "string \<Rightarrow> string list" where
  "splitlines s = splitlines_from [] s"

text \<open>\<^verbatim>\<open>s.split(sep)\<close> for a one-character separator: every occurrence splits.\<close>

fun split :: "char \<Rightarrow> string \<Rightarrow> string list" where
  "split sep [] = [[]]"
| "split sep (c # cs) =
     (if c = sep then [] # split sep cs
      else (case split sep cs of [] \<Rightarrow> [[c]] | p # ps \<Rightarrow> (c # p) # ps))"

subsection \<open>\<^verbatim>\<open>bytes.hex\<close> and \<^verbatim>\<open>bytes.fromhex\<close>\<close>

definition hex_char :: "nat \<Rightarrow> char" where
  "hex_char d = ''0123456789abcdef'' ! d"

definition byte_hex :: "byte \<Rightarrow> string" where
  "byte_hex b = [hex_char (unat b div 16), hex_char (unat b mod 16)]"

definition hex :: "byte list \<Rightarrow> string" where
  "hex bs = concat (map byte_hex bs)"

definition hex_value :: "char \<Rightarrow> nat option" where
  "hex_value c = (case digit_value c of None \<Rightarrow> None | Some d \<Rightarrow> if d < 16 then Some d else None)"

text \<open>
  \<^verbatim>\<open>bytes.fromhex\<close> skips ASCII whitespace between bytes and wants two hex digits
  for every byte; it raises \<^verbatim>\<open>ValueError\<close> (\<open>None\<close>) otherwise.
\<close>

fun fromhex :: "string \<Rightarrow> byte list option" where
  "fromhex [] = Some []"
| "fromhex [c] = (if py_isspace c then Some [] else None)"
| "fromhex (c # d # cs) =
     (if py_isspace c then fromhex (d # cs)
      else case (hex_value c, hex_value d) of
             (Some h, Some l) \<Rightarrow> map_option ((#) (of_nat (16 * h + l))) (fromhex cs)
           | _ \<Rightarrow> None)"

subsection \<open>\<^verbatim>\<open>os.path.dirname\<close>\<close>

text \<open>
  The POSIX version: everything up to and including the last slash, without its trailing
  slashes unless it consists of slashes only.
\<close>

definition rstrip_sep :: "string \<Rightarrow> string" where
  "rstrip_sep s = rev (dropWhile (\<lambda>c. c = CHR ''/'') (rev s))"

definition dirname :: "string \<Rightarrow> string" where
  "dirname p =
     (let head = rev (dropWhile (\<lambda>c. c \<noteq> CHR ''/'') (rev p))
      in if head \<noteq> [] \<and> head \<noteq> replicate (length head) (CHR ''/'') then rstrip_sep head
         else head)"

section \<open>The environment of the script\<close>

text \<open>
  The script runs inside gdb. Two services of gdb are parameters of the model:
  \<open>execute\<close> is \<^verbatim>\<open>gdb.execute(cmd, to_string=True)\<close>, which hands a command line to
  the remote side (whose state has the type \<open>'r\<close>) and returns its textual answer, and
  \<open>string_to_argv\<close> is gdb's tokenizer of a command's argument string.
\<close>

record 'r gdb =
  execute :: "string \<Rightarrow> 'r \<Rightarrow> string \<times> 'r"
  string_to_argv :: "string \<Rightarrow> string list"

text \<open>
  The world the script acts on: the remote side, the exchanges made with it so far (each
  command line with its answer, oldest first), what \<^verbatim>\<open>gdb.write\<close> has printed,
  and the files and directories of the file system, keyed by the path strings the script
  uses.
\<close>

record 'r world =
  remote :: 'r
  exchanges :: "(string \<times> string) list"
  console :: "string list"
  files :: "string \<rightharpoonup> byte list"
  dirs :: "string set"

definition sent :: "'r world \<Rightarrow> string list" where
  "sent w = map fst (exchanges w)"

definition gdb_write :: "string \<Rightarrow> 'r world \<Rightarrow> 'r world" where
  "gdb_write s w = w\<lparr>console := console w @ [s]\<rparr>"

definition path_exists :: "'r world \<Rightarrow> string \<Rightarrow> bool" where
  "path_exists w p = (files w p \<noteq> None \<or> p \<in> dirs w)"

definition path_isdir :: "'r world \<Rightarrow> string \<Rightarrow> bool" where
  "path_isdir w p = (p \<in> dirs w)"

text \<open>\<^verbatim>\<open>xs[i]\<close> for a non-negative index: out of range raises \<^verbatim>\<open>IndexError\<close>.\<close>

definition py_index :: "'a list \<Rightarrow> nat \<Rightarrow> error + 'a" where
  "py_index xs i = (if i < length xs then Inr (xs ! i) else Inl IndexError)"

text \<open>\<^verbatim>\<open>xs[i:j]\<close> for \<open>0 \<le> i \<le> j\<close>.\<close>

definition slice :: "'a list \<Rightarrow> nat \<Rightarrow> nat \<Rightarrow> 'a list" where
  "slice xs i j = take (j - i) (drop i xs)"

text \<open>\<^verbatim>\<open>range(start, stop, step)\<close> for a positive step.\<close>

function py_range :: "nat \<Rightarrow> nat \<Rightarrow> nat \<Rightarrow> nat list" where
  "py_range i stop step =
     (if step = 0 \<or> stop \<le> i then [] else i # py_range (i + step) stop step)"
  by pat_completeness auto
termination
  by (relation "measure (\<lambda>(i, stop, step). stop - i)") auto

declare py_range.simps [simp del]

section \<open>The script\<close>

definition SNAPSHOT_ERR :: string where
  "SNAPSHOT_ERR = ''SNAPSHOT ERR''"

definition snapshot_cmd :: "'r gdb \<Rightarrow> string \<Rightarrow> 'r world \<Rightarrow> string \<times> 'r world" where
  "snapshot_cmd g cmd w =
     (let line = ''monitor snapshot;'' @ cmd;
          (resp, r) = execute g line (remote w)
      in (resp, w\<lparr>remote := r, exchanges := exchanges w @ [(line, resp)]\<rparr>))"

text \<open>
  The dictionary comprehension \<^verbatim>\<open>{x: int(v, 16) for x, v in ret_snaps}\<close>: every
  record must unpack into exactly two fields and the second must be an integer literal of
  base 16, or \<^verbatim>\<open>ValueError\<close> is raised; a later record replaces an earlier one of
  the same name.
\<close>

fun snapshots_dict :: "string list list \<Rightarrow> (string \<rightharpoonup> int) \<Rightarrow> error + (string \<rightharpoonup> int)" where
  "snapshots_dict [] d = Inr d"
| "snapshots_dict (r # rs) d =
     (case r of
        [x, v] \<Rightarrow> (case py_int16 v of
                     None \<Rightarrow> Inl ValueError
                   | Some n \<Rightarrow> snapshots_dict rs (d(x \<mapsto> n)))
      | _ \<Rightarrow> Inl ValueError)"

definition get_snapshots_info :: "'r gdb \<Rightarrow> 'r world \<Rightarrow> (error + (string \<rightharpoonup> int)) \<times> 'r world" where
  "get_snapshots_info g w =
     (let (ret_info, w1) = snapshot_cmd g ''info'' w;
          ret_snaps = map (split (CHR '':'')) (filter (\<lambda>x. x \<noteq> []) (splitlines ret_info))
      in (snapshots_dict ret_snaps Map.empty, w1))"

subsection \<open>snapshot create\<close>

definition SnapshotCreateCommand_invoke :: "'r gdb \<Rightarrow> string \<Rightarrow> 'r world \<Rightarrow> (error + unit) \<times> 'r world" where
  "SnapshotCreateCommand_invoke g args w =
     (let argv = string_to_argv g args;
          name = (if length argv = 0 then None else Some (argv ! 0));
          truthy = (name \<noteq> None \<and> name \<noteq> Some []);
          cmd = (if truthy then ''create;name:'' @ the name else ''create'');
          (ret_name, w1) = snapshot_cmd g cmd w
      in if (truthy \<and> \<not> ret_name = the name) \<or> str_in SNAPSHOT_ERR ret_name
         then (Inl (GdbError (''Snapshot creation failed! '' @ ret_name)), w1)
         else (Inr (), gdb_write (''Created snapshot '' @ ret_name @ [CHR 0x0A]) w1))"

subsection \<open>snapshot restore\<close>

definition SnapshotRestoreCommand_invoke :: "'r gdb \<Rightarrow> string \<Rightarrow> 'r world \<Rightarrow> (error + unit) \<times> 'r world" where
  "SnapshotRestoreCommand_invoke g args w =
     (let argv = string_to_argv g args in
      if length argv \<noteq> 1 then (Inl (GdbError ''Usage: snapshot restore $snapshot_name''), w)
      else
        let name = argv ! 0 in
        case get_snapshots_info g w of
          (Inl e, w1) \<Rightarrow> (Inl e, w1)
        | (Inr info, w1) \<Rightarrow>
            if info name = None then (Inl (GdbError (''Snapshot '' @ name @ '' not found!'')), w1)
            else
              let cmd = ''restore;name:'' @ name;
                  (ret_name, w2) = snapshot_cmd g cmd w1
              in if ret_name \<noteq> name \<or> str_in SNAPSHOT_ERR ret_name
                 then (Inl (GdbError (''Restoring snapshot failed! '' @ ret_name)), w2)
                 else (Inr (), gdb_write (''Restored snapshot '' @ ret_name @ [CHR 0x0A]) w2))"

subsection \<open>snapshot save\<close>

text \<open>
  \<^verbatim>\<open>with open(f_out, 'wb') as fh_out: fh_out.write(bytes.fromhex(snap_data))\<close>:
  the file is opened, and so created or emptied, before the answer is decoded. Opening a
  directory for writing raises \<^verbatim>\<open>OSError\<close>. The value of
  \<^verbatim>\<open>os.path.join(f_out, ...)\<close> in the line before is dropped by the script, so that
  line has no effect.
\<close>

definition write_snapshot :: "string \<Rightarrow> string \<Rightarrow> 'r world \<Rightarrow> (error + unit) \<times> 'r world" where
  "write_snapshot f_out snap_data w =
     (if path_isdir w f_out then (Inl OSError, w)
      else
        let w1 = w\<lparr>files := (files w)(f_out \<mapsto> [])\<rparr> in
        case fromhex snap_data of
          None \<Rightarrow> (Inl ValueError, w1)
        | Some bs \<Rightarrow> (Inr (), w1\<lparr>files := (files w1)(f_out \<mapsto> bs)\<rparr>))"

definition SnapshotSaveCommand_invoke :: "'r gdb \<Rightarrow> string \<Rightarrow> 'r world \<Rightarrow> (error + unit) \<times> 'r world" where
  "SnapshotSaveCommand_invoke g args w =
     (let argv = string_to_argv g args in
      if length argv = 0 \<or> length argv > 2
      then (Inl (GdbError ''Usage: snapshot save snapshot_name [file path]''), w)
      else
        let name = argv ! 0 in
        case (if length argv = 1 then Inr (''./'' @ name @ ''.qsp'') else py_index argv 2) of
          Inl e \<Rightarrow> (Inl e, w)
        | Inr f_out \<Rightarrow>
            (case get_snapshots_info g w of
               (Inl e, w1) \<Rightarrow> (Inl e, w1)
             | (Inr info, w1) \<Rightarrow>
                 if info name = None
                 then (Inl (GdbError (''Snapshot '' @ name @ '' not found!'')), w1)
                 else if \<not> path_exists w1 (dirname f_out)
                 then (Inl (GdbError (''Directory '' @ dirname f_out @ '' does not exist!'')), w1)
                 else
                   let cmd = ''save;name:'' @ name;
                       (snap_data, w2) = snapshot_cmd g cmd w1
                   in if str_in SNAPSHOT_ERR snap_data
                      then (Inl (GdbError ''Saving snapshot failed!''), w2)
                      else
                        (case write_snapshot f_out snap_data w2 of
                           (Inl e, w3) \<Rightarrow> (Inl e, w3)
                         | (Inr u, w3) \<Rightarrow>
                             (Inr (), gdb_write (''Saved snapshot '' @ name @ '' to '' @ f_out
                                                 @ [CHR 0x0A]) w3))))"

subsection \<open>snapshot load\<close>

text \<open>
  The loop over \<^verbatim>\<open>range(1024, len(snap_data), 1024)\<close>, one iteration for each
  offset in the list. Wrapping the range in a progress bar, when \<^verbatim>\<open>tqdm\<close> is
  installed, does not change what the loop iterates over.
\<close>

fun load_cont :: "'r gdb \<Rightarrow> byte list \<Rightarrow> nat list \<Rightarrow> 'r world \<Rightarrow> (error + unit) \<times> 'r world" where
  "load_cont g snap_data [] w = (Inr (), w)"
| "load_cont g snap_data (i # rng) w =
     (let (resp, w1) =
            snapshot_cmd g (''load;data:'' @ hex (slice snap_data i (i + 1024)) @ '';state:cont'') w
      in case py_int resp of
           None \<Rightarrow> (Inl ValueError, w1)
         | Some len_recv \<Rightarrow>
             if len_recv \<noteq> int (length (slice snap_data i (i + 1024)))
             then (Inl (GdbError ''Error sending snapshot data!''), w1)
             else load_cont g snap_data rng w1)"

definition SnapshotLoadCommand_invoke :: "'r gdb \<Rightarrow> string \<Rightarrow> 'r world \<Rightarrow> (error + unit) \<times> 'r world" where
  "SnapshotLoadCommand_invoke g args w =
     (let argv = string_to_argv g args in
      if length argv = 0 \<or> length argv > 2
      then (Inl (GdbError ''Usage: snapshot load file_path [name]''), w)
      else
        let f_in = argv ! 0 in
        if \<not> path_exists w f_in
        then (Inl (GdbError (''Snapshot file '' @ f_in @ '' doesn'' @ [CHR 0x27] @ ''t exist!'')), w)
        else
          case files w f_in of
            None \<Rightarrow> (Inl OSError, w)
          | Some snap_data \<Rightarrow>
              let (resp, w1) =
                    snapshot_cmd g (''load;data:'' @ hex (slice snap_data 0 1024) @ '';state:start'') w
              in (case py_int resp of
                   None \<Rightarrow> (Inl ValueError, w1)
                 | Some len_recv \<Rightarrow>
                     if len_recv \<noteq> int (length (slice snap_data 0 1024))
                     then (Inl (GdbError (''Error sending snapshot data (State: start, len_recv: ''
                                           @ str_int len_recv @ '')!'')), w1)
                     else
                       (case load_cont g snap_data (py_range 1024 (length snap_data) 1024) w1 of
                          (Inl e, w2) \<Rightarrow> (Inl e, w2)
                        | (Inr u, w2) \<Rightarrow>
                            let cmd = (''load;state:done''
                                       @ (if length argv = 2 then '';name:'' @ (argv ! 1) else []));
                                (ret_name, w3) = snapshot_cmd g cmd w2
                            in if str_in SNAPSHOT_ERR ret_name
                               then (Inl (GdbError ''Saving snapshot failed!''), w3)
                               else (Inr (), gdb_write (''Loaded snapshot '' @ ret_name @ '' from ''
                                                        @ f_in @ [CHR 0x0A]) w3))))"

subsection \<open>snapshot delete\<close>

text \<open>
  The class \<^verbatim>\<open>SnapshotDeleteCommand\<close> consists of its docstring and its
  constructor, which registers the command; it defines no \<^verbatim>\<open>invoke\<close> method.
  When the command is run, gdb finds no method to call and reports an error of its own,
  so no statement of the script is executed.
\<close>

definition SnapshotDeleteCommand_invoke :: "'r gdb \<Rightarrow> string \<Rightarrow> 'r world \<Rightarrow> (error + unit) \<times> 'r world" where
  "SnapshotDeleteCommand_invoke g args w = (Inl NoInvoke, w)"

section \<open>Terms of the specification\<close>

text \<open>
  The exchanges an operation has added to the world: those of \<open>w'\<close> beyond the ones
  that \<open>w\<close> already had.
\<close>

definition session :: "'r world \<Rightarrow> 'r world \<Rightarrow> (string \<times> string) list" where
  "session w w' = drop (length (exchanges w)) (exchanges w')"

text \<open>
  The records of an \<^verbatim>\<open>info\<close> response are its non-empty lines, the lines
  being those of \<^verbatim>\<open>str.splitlines\<close>. A record is accepted when it has exactly
  one \<^verbatim>\<open>:\<close> and the text after it is an integer literal of base 16 as
  \<^verbatim>\<open>int\<close> reads it; the name is the text before the separator.

  In the words of the specification an offset is an unsigned integer of base 16: a
  non-empty string of hex digits, \<open>is_hex_offset\<close>, whose value is \<open>hex_number\<close>.
\<close>

definition info_records :: "string \<Rightarrow> string list" where
  "info_records r = filter (\<lambda>x. x \<noteq> []) (splitlines r)"

definition record_name :: "string \<Rightarrow> string" where
  "record_name l = takeWhile (\<lambda>c. c \<noteq> CHR '':'') l"

definition record_offset :: "string \<Rightarrow> string" where
  "record_offset l = drop 1 (dropWhile (\<lambda>c. c \<noteq> CHR '':'') l)"

definition parse_record :: "string \<Rightarrow> (string \<times> int) option" where
  "parse_record l =
     (if count_list l (CHR '':'') = 1
      then map_option (Pair (record_name l)) (py_int16 (record_offset l))
      else None)"

definition is_hex_offset :: "string \<Rightarrow> bool" where
  "is_hex_offset s = (s \<noteq> [] \<and> list_all (\<lambda>c. hex_value c \<noteq> None) s)"

definition hex_number :: "string \<Rightarrow> nat" where
  "hex_number s = foldl (\<lambda>acc c. 16 * acc + the (hex_value c)) 0 s"

text \<open>
  The chunks of a blob in the words of the specification: chunk \<open>k\<close> is the window of
  1024 bytes at offset \<open>1024 * k\<close>, there are \<open>ceil(n / 1024)\<close> of them for a blob of
  \<open>n\<close> bytes but never fewer than one, the first travels with \<^verbatim>\<open>state:start\<close>
  and the others with \<^verbatim>\<open>state:cont\<close>, and the session ends with the
  \<^verbatim>\<open>state:done\<close> command. A chunk is acknowledged when the answer is the decimal
  count of its bytes; any other answer ends the session with the failure
  \<open>chunk_failure\<close>.
\<close>

definition chunk :: "byte list \<Rightarrow> nat \<Rightarrow> byte list" where
  "chunk snap_data k = slice snap_data (1024 * k) (1024 * k + 1024)"

definition chunk_count :: "nat \<Rightarrow> nat" where
  "chunk_count n = max 1 ((n + 1023) div 1024)"

definition chunk_cmd :: "byte list \<Rightarrow> nat \<Rightarrow> string" where
  "chunk_cmd snap_data k =
     ''monitor snapshot;load;data:'' @ hex (chunk snap_data k)
       @ (if k = 0 then '';state:start'' else '';state:cont'')"

definition done_cmd :: "string list \<Rightarrow> string" where
  "done_cmd argv =
     ''monitor snapshot;load;state:done'' @ (if length argv = 2 then '';name:'' @ argv ! 1 else [])"

definition load_cmds :: "byte list \<Rightarrow> string list \<Rightarrow> string list" where
  "load_cmds snap_data argv =
     map (chunk_cmd snap_data) [0..<chunk_count (length snap_data)] @ [done_cmd argv]"

definition ack_ok :: "byte list \<Rightarrow> nat \<Rightarrow> string \<Rightarrow> bool" where
  "ack_ok snap_data k resp = (py_int resp = Some (int (length (chunk snap_data k))))"

definition chunk_failure :: "nat \<Rightarrow> string \<Rightarrow> error" where
  "chunk_failure k resp =
     (case py_int resp of
        None \<Rightarrow> ValueError
      | Some len_recv \<Rightarrow>
          GdbError (if k = 0
                    then ''Error sending snapshot data (State: start, len_recv: ''
                         @ str_int len_recv @ '')!''
                    else ''Error sending snapshot data!''))"

section \<open>A scripted remote side\<close>

text \<open>
  For concrete runs: a remote side that answers from a prepared list, one answer for
  each command and the empty string when the list is used up, and a tokenizer that splits
  the argument string at blanks, as gdb's does when there are no quotes and no escapes.
\<close>

definition scripted :: "string \<Rightarrow> string list \<Rightarrow> string \<times> string list" where
  "scripted cmd rs = (case rs of [] \<Rightarrow> ([], []) | r # rs' \<Rightarrow> (r, rs'))"

fun words_from :: "string \<Rightarrow> string \<Rightarrow> string list" where
  "words_from cur [] = (if cur = [] then [] else [cur])"
| "words_from cur (c # cs) =
     (if c = CHR 0x20 then (if cur = [] then words_from [] cs else cur # words_from [] cs)
      else words_from (cur @ [c]) cs)"

definition scripted_gdb :: "string list gdb" where
  "scripted_gdb = \<lparr>execute = scripted, string_to_argv = words_from []\<rparr>"

definition scripted_world :: "string list \<Rightarrow> (string \<rightharpoonup> byte list) \<Rightarrow> string list world" where
  "scripted_world rs fs =
     \<lparr>remote = rs, exchanges = [], console = [], files = fs, dirs = {''.''}\<rparr>"

section \<open>Properties\<close>

subsection \<open>What one command does to the world\<close>

lemma snapshot_cmd_eqD:
  assumes "snapshot_cmd g cmd w = (resp, w1)"
  shows "exchanges w1 = exchanges w @ [(''monitor snapshot;'' @ cmd, resp)]"
    and "files w1 = files w" and "dirs w1 = dirs w" and "console w1 = console w"
  using assms by (auto simp: snapshot_cmd_def Let_def split: prod.splits)

lemma get_snapshots_info_eqD:
  assumes "get_snapshots_info g w = (r, w1)"
  shows "\<exists>resp. exchanges w1 = exchanges w @ [(''monitor snapshot;info'', resp)]"
    and "files w1 = files w" and "dirs w1 = dirs w" and "console w1 = console w"
  using assms by (auto simp: get_snapshots_info_def Let_def split: prod.splits dest: snapshot_cmd_eqD)

text \<open>Definitions to unfold when a run is evaluated on the scripted remote side.\<close>

lemmas py_defs = py_int16_def py_int_def py_int_base_def strip_sign_def strip_prefix_def py_isspace_def
  int_isspace_def
  is_digit_def digit_value_def splitlines_def is_linebreak_def hex_def byte_hex_def hex_char_def hex_value_def
  SNAPSHOT_ERR_def Let_def

lemmas run_defs = scripted_gdb_def scripted_world_def scripted_def snapshot_cmd_def get_snapshots_info_def
  gdb_write_def sent_def path_exists_def path_isdir_def py_index_def slice_def dirname_def rstrip_sep_def

subsection \<open>snapshot save with an output path\<close>

text \<open>
  Claim C10. When \<^verbatim>\<open>snapshot save\<close> is given exactly two arguments, a snapshot name
  and an output path, the output path is read from position 2 of the two-element argument
  list. The operation ends there with \<^verbatim>\<open>IndexError\<close>: the catalog is not queried,
  no command is sent, and the world is unchanged, so the path given by the caller is never
  used.
\<close>

theorem save_two_arguments_index_error:
  assumes "string_to_argv g args = [name, path]"
  shows "SnapshotSaveCommand_invoke g args w = (Inl IndexError, w)"
  using assms by (simp add: SnapshotSaveCommand_invoke_def py_index_def)

theorem save_two_arguments_index_error_witness:
  "string_to_argv scripted_gdb ''alpha out.qsp'' = [''alpha'', ''out.qsp'']
   \<and> SnapshotSaveCommand_invoke scripted_gdb ''alpha out.qsp''
         (scripted_world [''alpha:401000'', ''00ff''] Map.empty)
       = (Inl IndexError, scripted_world [''alpha:401000'', ''00ff''] Map.empty)"
proof -
  have argv: "string_to_argv scripted_gdb ''alpha out.qsp'' = [''alpha'', ''out.qsp'']"
    by (simp add: scripted_gdb_def)
  show ?thesis
    using argv save_two_arguments_index_error [OF argv] by simp
qed

subsection \<open>snapshot restore\<close>

text \<open>
  Claim C7. A \<^verbatim>\<open>snapshot restore\<close> with the name \<open>N\<close> first queries the catalog.
  When \<open>N\<close> is not in it, the operation fails with the error
  \<^verbatim>\<open>Snapshot N not found!\<close> and the catalog query is the only command that was
  sent. When \<open>N\<close> is in it, the restore command follows, and the operation succeeds
  exactly when the answer equals \<open>N\<close> and does not contain the error sentinel; otherwise it
  fails with \<^verbatim>\<open>Restoring snapshot failed!\<close>.
\<close>

theorem restore_checks_catalog_then_echo:
  assumes argv: "string_to_argv g args = [N]"
    and run: "SnapshotRestoreCommand_invoke g args w = (res, w')"
    and cat: "fst (get_snapshots_info g w) = Inr info"
  shows "(info N = None \<longrightarrow>
            res = Inl (GdbError (''Snapshot '' @ N @ '' not found!''))
            \<and> sent w' = sent w @ [''monitor snapshot;info''])
       \<and> (info N \<noteq> None \<longrightarrow>
            sent w' = sent w @ [''monitor snapshot;info'', ''monitor snapshot;restore;name:'' @ N]
            \<and> (res = Inr () \<longleftrightarrow>
                 snd (last (exchanges w')) = N \<and> \<not> str_in SNAPSHOT_ERR (snd (last (exchanges w'))))
            \<and> (res \<noteq> Inr () \<longrightarrow>
                 res = Inl (GdbError (''Restoring snapshot failed! '' @ snd (last (exchanges w'))))))"
proof (cases "get_snapshots_info g w")
  case (Pair r w1)
  with cat have r: "r = Inr info" by simp
  from get_snapshots_info_eqD(1)[OF Pair] obtain resp
    where ex1: "exchanges w1 = exchanges w @ [(''monitor snapshot;info'', resp)]" by blast
  show ?thesis
  proof (cases "info N")
    case None
    with argv run Pair r ex1 show ?thesis
      by (auto simp: SnapshotRestoreCommand_invoke_def sent_def)
  next
    case (Some off)
    obtain ret_name w2 where sc: "snapshot_cmd g (''restore;name:'' @ N) w1 = (ret_name, w2)"
      by (cases "snapshot_cmd g (''restore;name:'' @ N) w1")
    from snapshot_cmd_eqD(1)[OF sc] ex1
    have ex2: "exchanges w2 = exchanges w @ [(''monitor snapshot;info'', resp),
                 (''monitor snapshot;restore;name:'' @ N, ret_name)]" by simp
    from argv run Pair r Some sc ex2 show ?thesis
      by (auto simp: SnapshotRestoreCommand_invoke_def sent_def gdb_write_def split: if_splits)
  qed
qed

theorem restore_checks_catalog_then_echo_witness:
  "string_to_argv scripted_gdb ''alpha'' = [''alpha'']
   \<and> fst (get_snapshots_info scripted_gdb (scripted_world [''alpha:401000'', ''alpha''] Map.empty))
       = Inr [''alpha'' \<mapsto> 4198400]
   \<and> fst (SnapshotRestoreCommand_invoke scripted_gdb ''alpha''
             (scripted_world [''alpha:401000'', ''alpha''] Map.empty)) = Inr ()
   \<and> sent (snd (SnapshotRestoreCommand_invoke scripted_gdb ''alpha''
                   (scripted_world [''alpha:401000'', ''alpha''] Map.empty)))
       = [''monitor snapshot;info'', ''monitor snapshot;restore;name:alpha'']"
proof -
  let ?w = "scripted_world [''alpha:401000'', ''alpha''] Map.empty"
  have argv: "string_to_argv scripted_gdb ''alpha'' = [''alpha'']"
    by (simp add: scripted_gdb_def)
  have cat: "fst (get_snapshots_info scripted_gdb ?w) = Inr [''alpha'' \<mapsto> 4198400]"
    by (simp add: py_defs run_defs)
  have run: "SnapshotRestoreCommand_invoke scripted_gdb ''alpha'' ?w
               = (fst (SnapshotRestoreCommand_invoke scripted_gdb ''alpha'' ?w),
                  snd (SnapshotRestoreCommand_invoke scripted_gdb ''alpha'' ?w))"
    by simp
  have echo: "snd (last (exchanges (snd (SnapshotRestoreCommand_invoke scripted_gdb ''alpha'' ?w))))
                = ''alpha''"
    by (simp add: py_defs run_defs SnapshotRestoreCommand_invoke_def)
  have sentinel: "\<not> str_in SNAPSHOT_ERR ''alpha''"
    by (simp add: SNAPSHOT_ERR_def)
  from restore_checks_catalog_then_echo [OF argv run cat] echo sentinel argv cat
  show ?thesis by (simp add: scripted_world_def sent_def)
qed

subsection \<open>snapshot save\<close>

lemma save_reaches_command:
  assumes "string_to_argv g args = [name]"
    and "get_snapshots_info g w = (Inr info, w1)"
    and "info name = Some off"
    and "path_exists w1 (dirname (''./'' @ name @ ''.qsp''))"
    and "snapshot_cmd g (''save;name:'' @ name) w1 = (snap_data, w2)"
  shows "str_in SNAPSHOT_ERR snap_data \<Longrightarrow>
           SnapshotSaveCommand_invoke g args w = (Inl (GdbError ''Saving snapshot failed!''), w2)"
    and "\<not> str_in SNAPSHOT_ERR snap_data \<Longrightarrow>
           write_snapshot (''./'' @ name @ ''.qsp'') snap_data w2 = (Inl e, w3) \<Longrightarrow>
           SnapshotSaveCommand_invoke g args w = (Inl e, w3)"
    and "\<not> str_in SNAPSHOT_ERR snap_data \<Longrightarrow>
           write_snapshot (''./'' @ name @ ''.qsp'') snap_data w2 = (Inr u, w3) \<Longrightarrow>
           SnapshotSaveCommand_invoke g args w
             = (Inr (), gdb_write (''Saved snapshot '' @ name @ '' to '' @ (''./'' @ name @ ''.qsp'')
                                    @ [CHR 0x0A]) w3)"
  using assms by (simp_all add: SnapshotSaveCommand_invoke_def)

lemma write_snapshot_eqD:
  assumes "write_snapshot f d w = (r, w3)"
  shows "exchanges w3 = exchanges w"
    and "if path_isdir w f then r = Inl OSError \<and> files w3 = files w
         else case fromhex d of
                None \<Rightarrow> r = Inl ValueError \<and> files w3 = (files w)(f \<mapsto> [])
              | Some bs \<Rightarrow> r = Inr () \<and> files w3 = (files w)(f \<mapsto> bs)"
  using assms
  by (auto simp: write_snapshot_def path_isdir_def Let_def split: option.splits if_splits)

text \<open>
  Claim C8. When the answer to the save command contains the error sentinel, the
  operation fails with the error \<^verbatim>\<open>Saving snapshot failed!\<close> and the files are
  as before: the output file is not opened and the answer is not decoded. Only an answer
  without the sentinel is decoded from hex, into the file \<^verbatim>\<open>./name.qsp\<close>; an
  answer that is not hex then raises \<^verbatim>\<open>ValueError\<close> and leaves that file empty.
\<close>

theorem save_sentinel_before_decoding:
  assumes argv: "string_to_argv g args = [name]"
    and run: "SnapshotSaveCommand_invoke g args w = (res, w')"
    and cat: "fst (get_snapshots_info g w) = Inr info"
    and known: "info name \<noteq> None"
    and dir: "path_exists w (dirname (''./'' @ name @ ''.qsp''))"
  shows "sent w' = sent w @ [''monitor snapshot;info'', ''monitor snapshot;save;name:'' @ name]
       \<and> (str_in SNAPSHOT_ERR (snd (last (exchanges w'))) \<longrightarrow>
            res = Inl (GdbError ''Saving snapshot failed!'') \<and> files w' = files w)
       \<and> (\<not> str_in SNAPSHOT_ERR (snd (last (exchanges w'))) \<longrightarrow>
            (if path_isdir w (''./'' @ name @ ''.qsp'') then res = Inl OSError \<and> files w' = files w
             else case fromhex (snd (last (exchanges w'))) of
                    None \<Rightarrow> res = Inl ValueError \<and> files w' = (files w)(''./'' @ name @ ''.qsp'' \<mapsto> [])
                  | Some bs \<Rightarrow> res = Inr () \<and> files w' = (files w)(''./'' @ name @ ''.qsp'' \<mapsto> bs)))"
proof (cases "get_snapshots_info g w")
  case (Pair r w1)
  with cat have gi: "get_snapshots_info g w = (Inr info, w1)" by simp
  from get_snapshots_info_eqD [OF gi] obtain resp
    where ex1: "exchanges w1 = exchanges w @ [(''monitor snapshot;info'', resp)]"
      and keep1: "files w1 = files w" "dirs w1 = dirs w" by blast
  obtain snap_data w2 where sc: "snapshot_cmd g (''save;name:'' @ name) w1 = (snap_data, w2)"
    by (cases "snapshot_cmd g (''save;name:'' @ name) w1")
  from snapshot_cmd_eqD [OF sc] ex1 keep1
  have ex2: "exchanges w2 = exchanges w @ [(''monitor snapshot;info'', resp),
               (''monitor snapshot;save;name:'' @ name, snap_data)]"
    and keep2: "files w2 = files w" "dirs w2 = dirs w" by simp_all
  from dir keep1 have dir1: "path_exists w1 (dirname (''./'' @ name @ ''.qsp''))"
    by (simp add: path_exists_def)
  from known obtain off where off: "info name = Some off" by auto
  note reach = save_reaches_command [OF argv gi off dir1 sc]
  obtain r3 w3 where ws: "write_snapshot (''./'' @ name @ ''.qsp'') snap_data w2 = (r3, w3)"
    by (cases "write_snapshot (''./'' @ name @ ''.qsp'') snap_data w2")
  from ex2 have sent2: "sent w2 = sent w @ [''monitor snapshot;info'', ''monitor snapshot;save;name:'' @ name]"
    and last2: "snd (last (exchanges w2)) = snap_data"
    by (simp_all add: sent_def)
  show ?thesis
  proof (cases "str_in SNAPSHOT_ERR snap_data")
    case True
    from reach(1) [OF True] run
    have "res = Inl (GdbError ''Saving snapshot failed!'')" and "w' = w2"
      by simp_all
    with True sent2 last2 keep2 show ?thesis by simp
  next
    case False
    have w': "exchanges w' = exchanges w3 \<and> files w' = files w3
               \<and> res = (case r3 of Inl e \<Rightarrow> Inl e | Inr u \<Rightarrow> Inr ())"
    proof (cases r3)
      case (Inl e)
      with reach(2) [OF False, of e w3] ws run show ?thesis by simp
    next
      case (Inr u)
      with reach(3) [OF False, of u w3] ws run show ?thesis by (simp add: gdb_write_def)
    qed
    note w3 = write_snapshot_eqD [OF ws, unfolded path_isdir_def keep2]
    have sent': "sent w' = sent w2" and last': "snd (last (exchanges w')) = snap_data"
      using w' w3(1) last2 by (simp_all add: sent_def)
    from w' have res: "res = (case r3 of Inl e \<Rightarrow> Inl e | Inr u \<Rightarrow> Inr ())"
      and files': "files w' = files w3" by simp_all
    show ?thesis
      unfolding sent' last' sent2 files' res path_isdir_def using False w3(2)
      by (simp split: option.splits if_splits)
  qed
qed

theorem save_sentinel_before_decoding_witness:
  "string_to_argv scripted_gdb ''alpha'' = [''alpha'']
   \<and> fst (get_snapshots_info scripted_gdb (scripted_world [''alpha:401000'', ''00ff''] Map.empty))
       = Inr [''alpha'' \<mapsto> 4198400]
   \<and> path_exists (scripted_world [''alpha:401000'', ''00ff''] Map.empty) (dirname ''./alpha.qsp'')
   \<and> fst (SnapshotSaveCommand_invoke scripted_gdb ''alpha''
             (scripted_world [''alpha:401000'', ''00ff''] Map.empty)) = Inr ()
   \<and> files (snd (SnapshotSaveCommand_invoke scripted_gdb ''alpha''
                    (scripted_world [''alpha:401000'', ''00ff''] Map.empty)))
       = [''./alpha.qsp'' \<mapsto> [0, 255]]
   \<and> fst (SnapshotSaveCommand_invoke scripted_gdb ''alpha''
             (scripted_world [''alpha:401000'', ''SNAPSHOT ERR: busy''] Map.empty))
       = Inl (GdbError ''Saving snapshot failed!'')
   \<and> files (snd (SnapshotSaveCommand_invoke scripted_gdb ''alpha''
                    (scripted_world [''alpha:401000'', ''SNAPSHOT ERR: busy''] Map.empty)))
       = Map.empty"
proof -
  let ?w = "scripted_world [''alpha:401000'', ''00ff''] Map.empty"
  let ?v = "scripted_world [''alpha:401000'', ''SNAPSHOT ERR: busy''] Map.empty"
  have argv: "string_to_argv scripted_gdb ''alpha'' = [''alpha'']"
    by (simp add: scripted_gdb_def)
  have cat: "fst (get_snapshots_info scripted_gdb ?w) = Inr [''alpha'' \<mapsto> 4198400]"
    and cat': "fst (get_snapshots_info scripted_gdb ?v) = Inr [''alpha'' \<mapsto> 4198400]"
    by (simp_all add: py_defs run_defs)
  have known: "[''alpha'' \<mapsto> 4198400 :: int] ''alpha'' \<noteq> None" by simp
  have dir: "path_exists ?w (dirname (''./'' @ ''alpha'' @ ''.qsp''))"
    and dir': "path_exists ?v (dirname (''./'' @ ''alpha'' @ ''.qsp''))"
    by (simp_all add: run_defs)
  have run: "SnapshotSaveCommand_invoke scripted_gdb ''alpha'' ?w
               = (fst (SnapshotSaveCommand_invoke scripted_gdb ''alpha'' ?w),
                  snd (SnapshotSaveCommand_invoke scripted_gdb ''alpha'' ?w))"
    and run': "SnapshotSaveCommand_invoke scripted_gdb ''alpha'' ?v
               = (fst (SnapshotSaveCommand_invoke scripted_gdb ''alpha'' ?v),
                  snd (SnapshotSaveCommand_invoke scripted_gdb ''alpha'' ?v))"
    by simp_all
  have answer: "snd (last (exchanges (snd (SnapshotSaveCommand_invoke scripted_gdb ''alpha'' ?w))))
                  = ''00ff''"
    and answer': "snd (last (exchanges (snd (SnapshotSaveCommand_invoke scripted_gdb ''alpha'' ?v))))
                  = ''SNAPSHOT ERR: busy''"
    by (simp_all add: py_defs run_defs SnapshotSaveCommand_invoke_def write_snapshot_def)
  have clean: "\<not> str_in SNAPSHOT_ERR ''00ff''" and marked: "str_in SNAPSHOT_ERR ''SNAPSHOT ERR: busy''"
    by (simp_all add: SNAPSHOT_ERR_def)
  have decoded: "fromhex ''00ff'' = Some [0, 255]"
    by (simp add: py_defs)
  have nodir: "\<not> path_isdir ?w (''./'' @ ''alpha'' @ ''.qsp'')"
    by (simp add: run_defs)
  have empty: "files ?w = Map.empty" "files ?v = Map.empty"
    by (simp_all add: scripted_world_def)
  from save_sentinel_before_decoding [OF argv run cat known dir]
       save_sentinel_before_decoding [OF argv run' cat' known dir']
       answer answer' clean marked decoded nodir empty argv cat dir
  show ?thesis by (simp del: str_in.simps)
qed

subsection \<open>The catalog\<close>

lemma split_no_separator: "count_list s sep = 0 \<Longrightarrow> split sep s = [s]"
  by (induction s) (auto split: if_splits)

lemma length_split: "length (split sep s) = Suc (count_list s sep)"
  by (induction s) (auto split: list.splits)

lemma split_one_separator:
  "count_list s sep = 1 \<Longrightarrow>
     split sep s = [takeWhile (\<lambda>c. c \<noteq> sep) s, drop 1 (dropWhile (\<lambda>c. c \<noteq> sep) s)]"
proof (induction s)
  case Nil
  then show ?case by simp
next
  case (Cons c cs)
  show ?case
  proof (cases "c = sep")
    case True
    with Cons.prems have "count_list cs sep = 0" by simp
    with True show ?thesis by (simp add: split_no_separator)
  next
    case False
    with Cons.prems have "count_list cs sep = 1" by simp
    from Cons.IH [OF this] False show ?thesis by simp
  qed
qed

lemma unpack_record:
  "(case split (CHR '':'') l of [x, v] \<Rightarrow> F x v | _ \<Rightarrow> E)
     = (if count_list l (CHR '':'') = 1 then F (record_name l) (record_offset l) else E)"
proof (cases "count_list l (CHR '':'') = 1")
  case True
  then show ?thesis
    by (simp add: split_one_separator record_name_def record_offset_def)
next
  case False
  then have "length (split (CHR '':'') l) \<noteq> 2"
    by (simp add: length_split)
  with False show ?thesis
    by (auto split: list.splits)
qed

lemma snapshots_dict_records:
  "snapshots_dict (map (split (CHR '':'')) ls) d =
     (if \<forall>l \<in> set ls. parse_record l \<noteq> None
      then Inr (d ++ map_of (rev (map (the \<circ> parse_record) ls)))
      else Inl ValueError)"
proof (induction ls arbitrary: d)
  case Nil
  then show ?case by simp
next
  case (Cons l ls)
  show ?case
  proof (cases "parse_record l")
    case None
    then show ?thesis
      by (auto simp: unpack_record parse_record_def split: if_splits option.splits)
  next
    case (Some p)
    then obtain n where one: "count_list l (CHR '':'') = 1"
      and off: "py_int16 (record_offset l) = Some n" and p: "p = (record_name l, n)"
      by (auto simp: parse_record_def split: if_splits)
    have step: "snapshots_dict (map (split (CHR '':'')) (l # ls)) d
                  = snapshots_dict (map (split (CHR '':'')) ls) (d(record_name l \<mapsto> n))"
      using one off by (simp add: unpack_record)
    have every: "(\<forall>x \<in> set (l # ls). parse_record x \<noteq> None)
                   = (\<forall>x \<in> set ls. parse_record x \<noteq> None)"
      using Some by simp
    have "map_of (rev (map (the \<circ> parse_record) (l # ls)))
            = [record_name l \<mapsto> n] ++ map_of (rev (map (the \<circ> parse_record) ls))"
      using Some p by (simp del: map_of.simps) simp
    then have merged: "d ++ map_of (rev (map (the \<circ> parse_record) (l # ls)))
            = d(record_name l \<mapsto> n) ++ map_of (rev (map (the \<circ> parse_record) ls))"
      by (simp add: map_add_assoc [symmetric])
    show ?thesis
      unfolding step every merged by (rule Cons.IH)
  qed
qed


lemma get_snapshots_info_fst:
  "fst (get_snapshots_info g w) =
     snapshots_dict (map (split (CHR '':''))
        (info_records (fst (execute g ''monitor snapshot;info'' (remote w))))) Map.empty"
  by (simp add: get_snapshots_info_def snapshot_cmd_def info_records_def Let_def split: prod.splits)

lemmas record_defs = info_records_def parse_record_def record_name_def record_offset_def

lemma map_of_rev_last:
  assumes "i < length ps" and "ps ! i = (k, v)"
    and "\<forall>j. i < j \<and> j < length ps \<longrightarrow> fst (ps ! j) \<noteq> k"
  shows "map_of (rev ps) k = Some v"
proof -
  have split: "ps = take i ps @ (k, v) # drop (Suc i) ps"
    using assms(1,2) by (metis id_take_nth_drop)
  have "k \<notin> fst ` set (drop (Suc i) ps)"
  proof
    assume "k \<in> fst ` set (drop (Suc i) ps)"
    then obtain m where "m < length (drop (Suc i) ps)" and "fst (drop (Suc i) ps ! m) = k"
      by (auto simp: in_set_conv_nth)
    then have "Suc i + m < length ps" and "fst (ps ! (Suc i + m)) = k"
      by simp_all
    with assms(3) show False by (metis less_add_Suc1 add_Suc)
  qed
  then have later: "map_of (rev (drop (Suc i) ps)) k = None"
    by (simp add: map_of_eq_None_iff)
  have "map_of (rev ps) k = map_of (rev (drop (Suc i) ps) @ (k, v) # rev (take i ps)) k"
    by (subst split) simp
  with later show ?thesis
    by (simp add: map_add_def)
qed

lemma hex_digit_plain:
  assumes "hex_value c \<noteq> None"
  shows "\<not> int_isspace c" and "c \<noteq> CHR ''+''" and "c \<noteq> CHR ''-''" and "c \<noteq> CHR ''_''"
    and "c \<noteq> CHR ''x''" and "c \<noteq> CHR ''X''"
    and "is_digit 16 c" and "digit_value c = hex_value c"
  using assms
  by (auto simp: int_isspace_def py_isspace_def hex_value_def is_digit_def digit_value_def Let_def
           split: option.splits if_splits)

lemma scan_hex_digits:
  "list_all (\<lambda>c. hex_value c \<noteq> None) s \<Longrightarrow>
     scan_digits 16 False acc n s
       = Some (foldl (\<lambda>a c. 16 * a + the (hex_value c)) acc s, n + length s, [])"
proof (induction s arbitrary: acc n)
  case Nil
  show ?case by simp
next
  case (Cons c cs)
  then have c: "hex_value c \<noteq> None" and cs: "list_all (\<lambda>c. hex_value c \<noteq> None) cs"
    by simp_all
  from hex_digit_plain [OF c] Cons.IH [OF cs] show ?case
    by (simp add: mult.commute)
qed

lemma py_int16_hex_offset:
  assumes "is_hex_offset s"
  shows "py_int16 s = Some (int (hex_number s))"
proof -
  from assms obtain c cs where s: "s = c # cs"
    and c: "hex_value c \<noteq> None" and all: "list_all (\<lambda>c. hex_value c \<noteq> None) s"
    by (cases s) (auto simp: is_hex_offset_def)
  note plain = hex_digit_plain [OF c]
  from plain(1) s have lead: "dropWhile int_isspace s = s" by simp
  from plain(2,3) s have sign: "strip_sign s = (False, s)"
    by (simp add: strip_sign_def)
  have "\<not> prefix ''0x'' s \<and> \<not> prefix ''0X'' s"
  proof (cases cs)
    case Nil
    with s show ?thesis by simp
  next
    case (Cons d ds)
    with all s have "hex_value d \<noteq> None" by simp
    from hex_digit_plain(5,6) [OF this] s Cons show ?thesis by simp
  qed
  then have pre: "strip_prefix 16 s = s" by (simp add: strip_prefix_def)
  from plain(4) s have us: "\<not> prefix ''_'' s" by simp
  from scan_hex_digits [OF all, of 0 0]
  have scan: "scan_digits 16 False 0 0 s = Some (hex_number s, length s, [])"
    by (simp add: hex_number_def)
  from s have "length s \<noteq> 0" by simp
  with lead sign pre us scan show ?thesis
    by (simp add: py_int16_def py_int_base_def)
qed

text \<open>
  Claim C4, as stated, does not hold. The offset is read by \<^verbatim>\<open>int(v, 16)\<close>,
  which accepts more than a hex number: the record \<^verbatim>\<open>a:-10\<close> is parsed to the
  offset \<open>-16\<close>. And the lines are those of \<^verbatim>\<open>str.splitlines\<close>: a response
  without a newline that holds a vertical tab and two separators is parsed as two records.
\<close>

theorem info_offset_counterexample:
  "count_list ''a:-10'' (CHR '':'') = 1
   \<and> record_offset ''a:-10'' = ''-10''
   \<and> \<not> is_hex_offset ''-10''
   \<and> fst (get_snapshots_info scripted_gdb (scripted_world [''a:-10''] Map.empty))
       = Inr [''a'' \<mapsto> - 16]
   \<and> count_list (''a:1'' @ [CHR 0x0B] @ ''b:2'') (CHR '':'') = 2
   \<and> fst (get_snapshots_info scripted_gdb
             (scripted_world [''a:1'' @ [CHR 0x0B] @ ''b:2''] Map.empty))
       = Inr [''a'' \<mapsto> 1, ''b'' \<mapsto> 2]"
  by (simp add: record_defs is_hex_offset_def py_defs run_defs)

text \<open>
  Claim C4, amended. The \<^verbatim>\<open>info\<close> response is split by
  \<^verbatim>\<open>str.splitlines\<close> into lines, of which the non-empty ones are the records. A
  record is accepted exactly when it has one \<^verbatim>\<open>:\<close> and the text after it is an
  integer literal of base 16 as \<^verbatim>\<open>int\<close> reads it (hex digits, with an optional
  sign, surrounding whitespace, \<^verbatim>\<open>0x\<close> prefix and single underscores); it then
  gives the text before the separator, which may be empty, as the name with that value,
  and a record whose offset is a plain unsigned hex number is accepted with the value of
  that number. When every record is accepted the result is the catalog of the records;
  any other record makes the parse fail with \<^verbatim>\<open>ValueError\<close>, whereas a response
  without records yields the empty catalog.
\<close>

theorem info_response_parsing:
  "fst (get_snapshots_info g w) =
     (let records = info_records (fst (execute g ''monitor snapshot;info'' (remote w)))
      in if \<forall>l \<in> set records. parse_record l \<noteq> None
         then Inr (map_of (rev (map (the \<circ> parse_record) records)))
         else Inl ValueError)
   \<and> (info_records (fst (execute g ''monitor snapshot;info'' (remote w))) = [] \<longrightarrow>
        fst (get_snapshots_info g w) = Inr Map.empty)
   \<and> (\<forall>l. parse_record l \<noteq> None \<longleftrightarrow>
             count_list l (CHR '':'') = 1 \<and> py_int16 (record_offset l) \<noteq> None)
   \<and> (\<forall>l. count_list l (CHR '':'') = 1 \<and> is_hex_offset (record_offset l) \<longrightarrow>
             parse_record l = Some (record_name l, int (hex_number (record_offset l))))"
proof -
  have accepted: "parse_record l \<noteq> None \<longleftrightarrow>
                    count_list l (CHR '':'') = 1 \<and> py_int16 (record_offset l) \<noteq> None" for l
    by (simp add: parse_record_def)
  have unsigned: "parse_record l = Some (record_name l, int (hex_number (record_offset l)))"
    if "count_list l (CHR '':'') = 1 \<and> is_hex_offset (record_offset l)" for l
    using that by (simp add: parse_record_def py_int16_hex_offset)
  show ?thesis
    using accepted unsigned
    by (simp add: get_snapshots_info_fst snapshots_dict_records Let_def)
qed

theorem info_response_parsing_witness:
  "fst (get_snapshots_info scripted_gdb
          (scripted_world [''alpha:401000'' @ [CHR 0x0A] @ ''beta:0x10'' @ [CHR 0x0A]] Map.empty))
     = Inr [''alpha'' \<mapsto> 4198400, ''beta'' \<mapsto> 16]
   \<and> fst (get_snapshots_info scripted_gdb (scripted_world [''alpha''] Map.empty)) = Inl ValueError
   \<and> fst (get_snapshots_info scripted_gdb (scripted_world [''alpha:40:10''] Map.empty)) = Inl ValueError
   \<and> fst (get_snapshots_info scripted_gdb (scripted_world [''alpha:40g''] Map.empty)) = Inl ValueError
   \<and> fst (get_snapshots_info scripted_gdb (scripted_world [[]] Map.empty)) = Inr Map.empty
   \<and> is_hex_offset ''1f''
   \<and> parse_record ''alpha:1f'' = Some (''alpha'', 31)"
proof -
  have ex: "\<And>r. fst (execute scripted_gdb ''monitor snapshot;info'' (remote (scripted_world [r] Map.empty))) = r"
    by (simp add: scripted_gdb_def scripted_world_def scripted_def)
  have two: "info_records (''alpha:401000'' @ [CHR 0x0A] @ ''beta:0x10'' @ [CHR 0x0A])
               = [''alpha:401000'', ''beta:0x10'']"
    and none: "info_records [] = []"
    and one: "info_records ''alpha'' = [''alpha'']" "info_records ''alpha:40:10'' = [''alpha:40:10'']"
      "info_records ''alpha:40g'' = [''alpha:40g'']"
    by (simp_all add: info_records_def splitlines_def is_linebreak_def)
  have good: "parse_record ''alpha:401000'' = Some (''alpha'', 4198400)"
    "parse_record ''beta:0x10'' = Some (''beta'', 16)"
    and bad: "parse_record ''alpha'' = None" "parse_record ''alpha:40:10'' = None"
      "parse_record ''alpha:40g'' = None"
    by (simp_all add: record_defs py_defs)
  have runs: "fst (get_snapshots_info scripted_gdb
          (scripted_world [''alpha:401000'' @ [CHR 0x0A] @ ''beta:0x10'' @ [CHR 0x0A]] Map.empty))
     = Inr [''alpha'' \<mapsto> 4198400, ''beta'' \<mapsto> 16]
   \<and> fst (get_snapshots_info scripted_gdb (scripted_world [''alpha''] Map.empty)) = Inl ValueError
   \<and> fst (get_snapshots_info scripted_gdb (scripted_world [''alpha:40:10''] Map.empty)) = Inl ValueError
   \<and> fst (get_snapshots_info scripted_gdb (scripted_world [''alpha:40g''] Map.empty)) = Inl ValueError
   \<and> fst (get_snapshots_info scripted_gdb (scripted_world [[]] Map.empty)) = Inr Map.empty"
    using info_response_parsing [of scripted_gdb
            "scripted_world [''alpha:401000'' @ [CHR 0x0A] @ ''beta:0x10'' @ [CHR 0x0A]] Map.empty",
            THEN conjunct1]
      info_response_parsing [of scripted_gdb "scripted_world [''alpha''] Map.empty", THEN conjunct1]
      info_response_parsing [of scripted_gdb "scripted_world [''alpha:40:10''] Map.empty", THEN conjunct1]
      info_response_parsing [of scripted_gdb "scripted_world [''alpha:40g''] Map.empty", THEN conjunct1]
      info_response_parsing [of scripted_gdb "scripted_world [[]] Map.empty", THEN conjunct1]
    unfolding ex two none one Let_def
    by (simp add: good bad)
  have offset: "is_hex_offset ''1f''"
    by (simp add: is_hex_offset_def hex_value_def digit_value_def)
  have fields: "count_list ''alpha:1f'' (CHR '':'') = 1" "record_name ''alpha:1f'' = ''alpha''"
    "record_offset ''alpha:1f'' = ''1f''"
    by (simp_all add: record_defs)
  have number: "hex_number ''1f'' = 31"
    by (simp add: hex_number_def hex_value_def digit_value_def)
  from info_response_parsing [of scripted_gdb "scripted_world [[]] Map.empty"]
  have "count_list ''alpha:1f'' (CHR '':'') = 1 \<and> is_hex_offset (record_offset ''alpha:1f'') \<longrightarrow>
          parse_record ''alpha:1f''
            = Some (record_name ''alpha:1f'', int (hex_number (record_offset ''alpha:1f'')))"
    by blast
  with offset fields number have "parse_record ''alpha:1f'' = Some (''alpha'', 31)" by simp
  with runs offset show ?thesis by blast
qed

text \<open>
  Claim C5, as stated, does not hold: a response that names the same snapshot on two
  records is parsed without a fault. Here the name \<^verbatim>\<open>a\<close> is on both records and
  the result is a catalog.
\<close>

theorem duplicate_name_parsed_counterexample:
  "map record_name (info_records (''a:1'' @ [CHR 0x0A] @ ''a:2'')) = [''a'', ''a'']
   \<and> fst (get_snapshots_info scripted_gdb
             (scripted_world [''a:1'' @ [CHR 0x0A] @ ''a:2''] Map.empty)) = Inr [''a'' \<mapsto> 2]"
  by (simp add: record_defs py_defs run_defs)

text \<open>
  Claim C5, amended. For every \<^verbatim>\<open>info\<close> response whose records are all well
  formed, parsing succeeds, also when the same name is on two or more records: the catalog
  maps a name to the offset of the last record that bears it.
\<close>

theorem duplicate_name_last_record_wins:
  assumes wellformed: "\<forall>l \<in> set (info_records (fst (execute g ''monitor snapshot;info'' (remote w)))).
                          parse_record l \<noteq> None"
    and i: "i < length (info_records (fst (execute g ''monitor snapshot;info'' (remote w))))"
    and at_i: "parse_record (info_records (fst (execute g ''monitor snapshot;info'' (remote w))) ! i)
                 = Some (name, off)"
    and last: "\<forall>j. i < j \<and> j < length (info_records (fst (execute g ''monitor snapshot;info'' (remote w))))
                 \<longrightarrow> record_name (info_records (fst (execute g ''monitor snapshot;info'' (remote w))) ! j)
                       \<noteq> name"
  shows "\<not> isl (fst (get_snapshots_info g w))
       \<and> projr (fst (get_snapshots_info g w)) name = Some off"
proof -
  define records where "records = info_records (fst (execute g ''monitor snapshot;info'' (remote w)))"
  define ps where "ps = map (the \<circ> parse_record) records"
  have res: "fst (get_snapshots_info g w) = Inr (map_of (rev ps))"
    using wellformed
    by (simp add: get_snapshots_info_fst snapshots_dict_records records_def ps_def)
  have name_of: "fst (ps ! j) = record_name (records ! j)" if "j < length records" for j
  proof -
    from that wellformed have "parse_record (records ! j) \<noteq> None"
      by (simp add: records_def)
    then show ?thesis
      using that by (auto simp: ps_def parse_record_def split: if_splits)
  qed
  have "map_of (rev ps) name = Some off"
  proof (rule map_of_rev_last)
    show "i < length ps" using i by (simp add: ps_def records_def)
    show "ps ! i = (name, off)" using i at_i by (simp add: ps_def records_def)
    show "\<forall>j. i < j \<and> j < length ps \<longrightarrow> fst (ps ! j) \<noteq> name"
      using last name_of by (simp add: ps_def records_def)
  qed
  with res show ?thesis by simp
qed

theorem duplicate_name_last_record_wins_witness:
  "info_records (''a:1'' @ [CHR 0x0A] @ ''a:2'') = [''a:1'', ''a:2'']
   \<and> parse_record ''a:1'' = Some (''a'', 1)
   \<and> parse_record ''a:2'' = Some (''a'', 2)
   \<and> \<not> isl (fst (get_snapshots_info scripted_gdb
                    (scripted_world [''a:1'' @ [CHR 0x0A] @ ''a:2''] Map.empty)))
   \<and> projr (fst (get_snapshots_info scripted_gdb
                    (scripted_world [''a:1'' @ [CHR 0x0A] @ ''a:2''] Map.empty))) ''a'' = Some 2"
proof -
  let ?w = "scripted_world [''a:1'' @ [CHR 0x0A] @ ''a:2''] Map.empty"
  have ex: "fst (execute scripted_gdb ''monitor snapshot;info'' (remote ?w))
              = ''a:1'' @ [CHR 0x0A] @ ''a:2''"
    by (simp add: scripted_gdb_def scripted_world_def scripted_def)
  have records: "info_records (''a:1'' @ [CHR 0x0A] @ ''a:2'') = [''a:1'', ''a:2'']"
    by (simp add: info_records_def splitlines_def is_linebreak_def)
  have first: "parse_record ''a:1'' = Some (''a'', 1)"
    and second: "parse_record ''a:2'' = Some (''a'', 2)"
    by (simp_all add: record_defs py_defs)
  have wellformed: "\<forall>l \<in> set (info_records (fst (execute scripted_gdb ''monitor snapshot;info'' (remote ?w)))).
                      parse_record l \<noteq> None"
    unfolding ex records using first second by simp
  have i: "1 < length (info_records (fst (execute scripted_gdb ''monitor snapshot;info'' (remote ?w))))"
    unfolding ex records by simp
  have at_i: "parse_record (info_records (fst (execute scripted_gdb ''monitor snapshot;info'' (remote ?w))) ! 1)
                = Some (''a'', 2)"
    unfolding ex records using second by simp
  have last: "\<forall>j. 1 < j \<and> j < length (info_records (fst (execute scripted_gdb ''monitor snapshot;info'' (remote ?w))))
                \<longrightarrow> record_name (info_records (fst (execute scripted_gdb ''monitor snapshot;info'' (remote ?w))) ! j)
                      \<noteq> ''a''"
    unfolding ex records by auto
  from duplicate_name_last_record_wins [OF wellformed i at_i last] records first second
  show ?thesis by simp
qed

subsection \<open>The chunked upload\<close>

text \<open>
  The offsets of the loop are those of the chunks after the first. The session of a load,
  that is, the exchanges it adds, is an initial segment of the commands
  \<open>load_cmds\<close> with their answers: every exchange but the last is an acknowledged
  chunk, and the last one is either a chunk that was not acknowledged, which decides the
  failure, or the \<^verbatim>\<open>state:done\<close> command.
\<close>

lemma py_range_chunks:
  "py_range (1024 * a) n 1024 = map (\<lambda>k. 1024 * k) [a..<(n + 1023) div 1024]"
proof (induction "(n + 1023) div 1024 - a" arbitrary: a)
  case 0
  then have "n \<le> 1024 * a" by linarith
  with 0 show ?case by (simp add: py_range.simps)
next
  case (Suc d)
  then have more: "a < (n + 1023) div 1024" and "d = (n + 1023) div 1024 - Suc a" by linarith+
  from Suc.hyps(1) [OF this(2)]
  have rest: "py_range (1024 * Suc a) n 1024 = map (\<lambda>k. 1024 * k) [Suc a..<(n + 1023) div 1024]" .
  from more have "1024 * a < n" by linarith
  then have "py_range (1024 * a) n 1024 = 1024 * a # py_range (1024 * Suc a) n 1024"
    by (subst py_range.simps) (simp add: algebra_simps)
  with rest more show ?case by (simp add: upt_conv_Cons)
qed

lemma py_range_load: "py_range 1024 n 1024 = map (\<lambda>k. 1024 * k) [1..<chunk_count n]"
proof -
  have "[1..<chunk_count n] = [1..<(n + 1023) div 1024]"
    by (simp add: chunk_count_def max_def)
  with py_range_chunks [of 1 n] show ?thesis by simp
qed


lemma cont_cmd_chunk:
  "0 < k \<Longrightarrow>
     ''monitor snapshot;'' @ ''load;data:'' @ hex (slice snap_data (1024 * k) (1024 * k + 1024))
       @ '';state:cont'' = chunk_cmd snap_data k"
  by (simp add: chunk_cmd_def chunk_def)

lemma start_cmd_chunk:
  "''monitor snapshot;'' @ ''load;data:'' @ hex (slice snap_data 0 1024) @ '';state:start''
     = chunk_cmd snap_data 0"
  by (simp add: chunk_cmd_def chunk_def)

lemma load_cont_step:
  assumes "snapshot_cmd g (''load;data:'' @ hex (slice snap_data (1024 * k) (1024 * k + 1024))
                            @ '';state:cont'') w = (resp, w1)"
  shows "load_cont g snap_data (1024 * k # rng) w =
           (if ack_ok snap_data k resp then load_cont g snap_data rng w1
            else (Inl (case py_int resp of None \<Rightarrow> ValueError
                       | Some len_recv \<Rightarrow> GdbError ''Error sending snapshot data!''), w1))"
  using assms by (simp add: ack_ok_def chunk_def split: option.splits)

lemma load_cont_run:
  assumes "load_cont g snap_data (map (\<lambda>k. 1024 * k) [a..<b]) w = (res, w')" and "0 < a"
  shows "\<exists>S. exchanges w' = exchanges w @ S
           \<and> length S \<le> b - a
           \<and> map fst S = map (chunk_cmd snap_data) [a..<a + length S]
           \<and> (\<forall>j. Suc j < length S \<longrightarrow> ack_ok snap_data (a + j) (snd (S ! j)))
           \<and> (res = Inr () \<longrightarrow> length S = b - a
                 \<and> (\<forall>j < length S. ack_ok snap_data (a + j) (snd (S ! j))))
           \<and> (res \<noteq> Inr () \<longrightarrow> S \<noteq> []
                 \<and> \<not> ack_ok snap_data (a + length S - 1) (snd (last S))
                 \<and> res = Inl (chunk_failure (a + length S - 1) (snd (last S))))"
  using assms
proof (induction "b - a" arbitrary: a w)
  case 0
  then have "res = Inr ()" and "w' = w" by simp_all
  then show ?case using 0 by simp
next
  case (Suc d)
  then have ab: "a < b" and d: "d = b - Suc a" by linarith+
  let ?cmd = "''load;data:'' @ hex (slice snap_data (1024 * a) (1024 * a + 1024)) @ '';state:cont''"
  obtain resp w1 where sc: "snapshot_cmd g ?cmd w = (resp, w1)"
    by (cases "snapshot_cmd g ?cmd w")
  from snapshot_cmd_eqD(1) [OF sc] cont_cmd_chunk [OF Suc.prems(2), of snap_data]
  have ex1: "exchanges w1 = exchanges w @ [(chunk_cmd snap_data a, resp)]" by simp
  from ab have range: "map (\<lambda>k. 1024 * k) [a..<b] = 1024 * a # map (\<lambda>k. 1024 * k) [Suc a..<b]"
    by (simp add: upt_conv_Cons)
  note step = load_cont_step [OF sc, of "map (\<lambda>k. 1024 * k) [Suc a..<b]"]
  show ?case
  proof (cases "ack_ok snap_data a resp")
    case False
    with Suc.prems(1) range step
    have res: "res = Inl (case py_int resp of None \<Rightarrow> ValueError
                          | Some len_recv \<Rightarrow> GdbError ''Error sending snapshot data!'')"
      and w': "w' = w1" by simp_all
    from res Suc.prems(2) have "res = Inl (chunk_failure a resp)"
      by (simp add: chunk_failure_def split: option.splits)
    with False ex1 w' ab show ?thesis
      by (intro exI [of _ "[(chunk_cmd snap_data a, resp)]"]) simp
  next
    case True
    with Suc.prems(1) range step
    have "load_cont g snap_data (map (\<lambda>k. 1024 * k) [Suc a..<b]) w1 = (res, w')" by simp
    from Suc.hyps(1) [OF d this] obtain S where
      ex: "exchanges w' = exchanges w1 @ S"
      and len: "length S \<le> b - Suc a"
      and cmds: "map fst S = map (chunk_cmd snap_data) [Suc a..<Suc a + length S]"
      and before: "\<forall>j. Suc j < length S \<longrightarrow> ack_ok snap_data (Suc a + j) (snd (S ! j))"
      and ok: "res = Inr () \<longrightarrow> length S = b - Suc a
                 \<and> (\<forall>j < length S. ack_ok snap_data (Suc a + j) (snd (S ! j)))"
      and failed: "res \<noteq> Inr () \<longrightarrow> S \<noteq> []
                 \<and> \<not> ack_ok snap_data (Suc a + length S - 1) (snd (last S))
                 \<and> res = Inl (chunk_failure (Suc a + length S - 1) (snd (last S)))"
      by auto
    let ?S = "(chunk_cmd snap_data a, resp) # S"
    have 1: "exchanges w' = exchanges w @ ?S" using ex ex1 by simp
    have 2: "length ?S \<le> b - a" using len ab by simp
    have 3: "map fst ?S = map (chunk_cmd snap_data) [a..<a + length ?S]"
    proof -
      have "a < a + length ?S" by simp
      then have "[a..<a + length ?S] = a # [Suc a..<a + length ?S]" by (rule upt_conv_Cons)
      moreover have "a + length ?S = Suc a + length S" by simp
      ultimately have "[a..<a + length ?S] = a # [Suc a..<Suc a + length S]" by (simp only:)
      with cmds show ?thesis by (simp only: list.map fst_conv)
    qed
    have 4: "\<forall>j. Suc j < length ?S \<longrightarrow> ack_ok snap_data (a + j) (snd (?S ! j))"
    proof (intro allI impI)
      fix j assume "Suc j < length ?S"
      then show "ack_ok snap_data (a + j) (snd (?S ! j))"
        using True before by (cases j) auto
    qed
    have 5: "res = Inr () \<longrightarrow> length ?S = b - a
               \<and> (\<forall>j < length ?S. ack_ok snap_data (a + j) (snd (?S ! j)))"
    proof (intro impI conjI allI)
      assume r: "res = Inr ()"
      with ok ab show "length ?S = b - a" by simp
      fix j assume "j < length ?S"
      then show "ack_ok snap_data (a + j) (snd (?S ! j))"
        using True ok r by (cases j) auto
    qed
    have 6: "res \<noteq> Inr () \<longrightarrow> ?S \<noteq> []
               \<and> \<not> ack_ok snap_data (a + length ?S - 1) (snd (last ?S))
               \<and> res = Inl (chunk_failure (a + length ?S - 1) (snd (last ?S)))"
      using failed by auto
    from 1 2 3 4 5 6 show ?thesis by blast
  qed
qed


lemma load_invoke_unfold:
  assumes "string_to_argv g args = argv" and "argv \<noteq> []" and "length argv \<le> 2"
    and "files w (argv ! 0) = Some snap_data"
    and "snapshot_cmd g (''load;data:'' @ hex (slice snap_data 0 1024) @ '';state:start'') w
           = (resp, w1)"
  shows "\<not> ack_ok snap_data 0 resp \<Longrightarrow>
           SnapshotLoadCommand_invoke g args w = (Inl (chunk_failure 0 resp), w1)"
    and "ack_ok snap_data 0 resp \<Longrightarrow>
           load_cont g snap_data (py_range 1024 (length snap_data) 1024) w1 = (Inl e, w2) \<Longrightarrow>
           SnapshotLoadCommand_invoke g args w = (Inl e, w2)"
    and "ack_ok snap_data 0 resp \<Longrightarrow>
           load_cont g snap_data (py_range 1024 (length snap_data) 1024) w1 = (Inr u, w2) \<Longrightarrow>
           snapshot_cmd g (''load;state:done''
                            @ (if length argv = 2 then '';name:'' @ argv ! 1 else [])) w2
             = (ret_name, w3) \<Longrightarrow>
           SnapshotLoadCommand_invoke g args w =
             (if str_in SNAPSHOT_ERR ret_name then (Inl (GdbError ''Saving snapshot failed!''), w3)
              else (Inr (), gdb_write (''Loaded snapshot '' @ ret_name @ '' from '' @ argv ! 0
                                       @ [CHR 0x0A]) w3))"
  using assms
  by (simp_all add: SnapshotLoadCommand_invoke_def path_exists_def ack_ok_def chunk_def
                    chunk_failure_def split: option.splits)


lemma chunk_count_pos: "0 < chunk_count n"
  by (simp add: chunk_count_def)

lemma take_load_cmds:
  "m \<le> chunk_count (length snap_data) \<Longrightarrow>
     take m (load_cmds snap_data argv) = map (chunk_cmd snap_data) [0..<m]"
  by (simp add: load_cmds_def take_map)

lemma load_run:
  assumes argv: "string_to_argv g args = argv" "argv \<noteq> []" "length argv \<le> 2"
    and blob: "files w (argv ! 0) = Some snap_data"
    and run: "SnapshotLoadCommand_invoke g args w = (res, w')"
  shows "\<exists>S. exchanges w' = exchanges w @ S \<and> S \<noteq> []
           \<and> length S \<le> Suc (chunk_count (length snap_data))
           \<and> map fst S = take (length S) (load_cmds snap_data argv)
           \<and> (\<forall>j. Suc j < length S \<longrightarrow> ack_ok snap_data j (snd (S ! j)))
           \<and> (length S \<le> chunk_count (length snap_data) \<longrightarrow>
                 \<not> ack_ok snap_data (length S - 1) (snd (last S))
                 \<and> res = Inl (chunk_failure (length S - 1) (snd (last S))))
           \<and> (length S = Suc (chunk_count (length snap_data)) \<longrightarrow>
                 res = (if str_in SNAPSHOT_ERR (snd (last S))
                        then Inl (GdbError ''Saving snapshot failed!'') else Inr ()))"
proof -
  let ?C = "chunk_count (length snap_data)"
  let ?start = "''load;data:'' @ hex (slice snap_data 0 1024) @ '';state:start''"
  obtain resp w1 where sc: "snapshot_cmd g ?start w = (resp, w1)"
    by (cases "snapshot_cmd g ?start w")
  from snapshot_cmd_eqD(1) [OF sc] start_cmd_chunk [of snap_data]
  have ex1: "exchanges w1 = exchanges w @ [(chunk_cmd snap_data 0, resp)]" by simp
  note unfold = load_invoke_unfold [OF argv blob sc]
  have C: "0 < ?C" by (rule chunk_count_pos)
  show ?thesis
  proof (cases "ack_ok snap_data 0 resp")
    case False
    from unfold(1) [OF False] run have res: "res = Inl (chunk_failure 0 resp)" and w': "w' = w1"
      by simp_all
    let ?S = "[(chunk_cmd snap_data 0, resp)]"
    have "map fst ?S = take (length ?S) (load_cmds snap_data argv)"
      using C take_load_cmds [of 1 snap_data argv] by simp
    with False res w' ex1 C show ?thesis
      by (intro exI [of _ ?S]) simp
  next
    case True
    obtain r2 w2 where lc: "load_cont g snap_data (py_range 1024 (length snap_data) 1024) w1 = (r2, w2)"
      by (cases "load_cont g snap_data (py_range 1024 (length snap_data) 1024) w1")
    then have "load_cont g snap_data (map (\<lambda>k. 1024 * k) [1..<?C]) w1 = (r2, w2)"
      by (simp add: py_range_load)
    from load_cont_run [OF this] obtain S2 where
      ex2: "exchanges w2 = exchanges w1 @ S2"
      and len2: "length S2 \<le> ?C - 1"
      and cmds2: "map fst S2 = map (chunk_cmd snap_data) [1..<1 + length S2]"
      and before2: "\<forall>j. Suc j < length S2 \<longrightarrow> ack_ok snap_data (1 + j) (snd (S2 ! j))"
      and ok2: "r2 = Inr () \<longrightarrow> length S2 = ?C - 1
                 \<and> (\<forall>j < length S2. ack_ok snap_data (1 + j) (snd (S2 ! j)))"
      and failed2: "r2 \<noteq> Inr () \<longrightarrow> S2 \<noteq> []
                 \<and> \<not> ack_ok snap_data (1 + length S2 - 1) (snd (last S2))
                 \<and> r2 = Inl (chunk_failure (1 + length S2 - 1) (snd (last S2)))"
      by auto
    have cmds02: "chunk_cmd snap_data 0 # map fst S2 = map (chunk_cmd snap_data) [0..<Suc (length S2)]"
    proof -
      have "[0..<Suc (length S2)] = 0 # [Suc 0..<Suc (length S2)]" by (rule upt_conv_Cons) simp
      with cmds2 show ?thesis by (simp only: list.map One_nat_def add_Suc add_0)
    qed
    show ?thesis
    proof (cases r2)
      case (Inl e)
      from lc Inl have lc': "load_cont g snap_data (py_range 1024 (length snap_data) 1024) w1 = (Inl e, w2)"
        by simp
      from unfold(2) [OF True lc'] run have res: "res = Inl e" and w': "w' = w2"
        by simp_all
      from failed2 Inl have ne: "S2 \<noteq> []"
        and bad: "\<not> ack_ok snap_data (length S2) (snd (last S2))"
        and e: "e = chunk_failure (length S2) (snd (last S2))" by simp_all
      let ?S = "(chunk_cmd snap_data 0, resp) # S2"
      from ne len2 have lenS: "length ?S \<le> ?C" by (cases S2) auto
      have 1: "exchanges w' = exchanges w @ ?S" using w' ex2 ex1 by simp
      have 2: "map fst ?S = take (length ?S) (load_cmds snap_data argv)"
        using cmds02 take_load_cmds [OF lenS, of argv] by simp
      have 3: "\<forall>j. Suc j < length ?S \<longrightarrow> ack_ok snap_data j (snd (?S ! j))"
      proof (intro allI impI)
        fix j assume "Suc j < length ?S"
        then show "ack_ok snap_data j (snd (?S ! j))"
          using True before2 by (cases j) auto
      qed
      have 4: "\<not> ack_ok snap_data (length ?S - 1) (snd (last ?S))
               \<and> res = Inl (chunk_failure (length ?S - 1) (snd (last ?S)))"
        using ne bad e res by simp
      from 1 2 3 4 lenS show ?thesis
        by (intro exI [of _ ?S]) simp
    next
      case (Inr u)
      let ?done = "''load;state:done'' @ (if length argv = 2 then '';name:'' @ argv ! 1 else [])"
      obtain ret_name w3 where dc: "snapshot_cmd g ?done w2 = (ret_name, w3)"
        by (cases "snapshot_cmd g ?done w2")
      have done_line: "''monitor snapshot;'' @ ?done = done_cmd argv"
        by (simp add: done_cmd_def)
      from snapshot_cmd_eqD(1) [OF dc] done_line
      have ex3: "exchanges w3 = exchanges w2 @ [(done_cmd argv, ret_name)]" by simp
      from lc Inr have lc': "load_cont g snap_data (py_range 1024 (length snap_data) 1024) w1 = (Inr u, w2)"
        by simp
      from unfold(3) [OF True lc' dc] run
      have res: "res = (if str_in SNAPSHOT_ERR ret_name
                        then Inl (GdbError ''Saving snapshot failed!'') else Inr ())"
        and w': "exchanges w' = exchanges w3"
        by (auto simp: gdb_write_def split: if_splits)
      from ok2 Inr have len: "length S2 = ?C - 1"
        and acked: "\<forall>j < length S2. ack_ok snap_data (1 + j) (snd (S2 ! j))" by simp_all
      let ?S = "(chunk_cmd snap_data 0, resp) # S2 @ [(done_cmd argv, ret_name)]"
      from len C have lenS: "length ?S = Suc ?C" by simp
      from len C have full: "Suc (length S2) = ?C" by simp
      have 1: "exchanges w' = exchanges w @ ?S" using w' ex3 ex2 ex1 by simp
      have 2: "map fst ?S = take (length ?S) (load_cmds snap_data argv)"
        using cmds02 full by (simp add: load_cmds_def)
      have 3: "\<forall>j. Suc j < length ?S \<longrightarrow> ack_ok snap_data j (snd (?S ! j))"
      proof (intro allI impI)
        fix j assume "Suc j < length ?S"
        then show "ack_ok snap_data j (snd (?S ! j))"
          using True acked by (cases j) (auto simp: nth_append)
      qed
      from 1 2 3 lenS res show ?thesis
        by (intro exI [of _ ?S]) simp
    qed
  qed
qed

lemma load_session:
  assumes argv: "string_to_argv g args = argv" "argv \<noteq> []" "length argv \<le> 2"
    and blob: "files w (argv ! 0) = Some snap_data"
    and run: "SnapshotLoadCommand_invoke g args w = (res, w')"
  shows "exchanges w' = exchanges w @ session w w'"
    and "session w w' \<noteq> []"
    and "length (session w w') \<le> Suc (chunk_count (length snap_data))"
    and "map fst (session w w') = take (length (session w w')) (load_cmds snap_data argv)"
    and "\<forall>j. Suc j < length (session w w') \<longrightarrow> ack_ok snap_data j (snd (session w w' ! j))"
    and "length (session w w') \<le> chunk_count (length snap_data) \<longrightarrow>
           \<not> ack_ok snap_data (length (session w w') - 1) (snd (last (session w w')))
           \<and> res = Inl (chunk_failure (length (session w w') - 1) (snd (last (session w w'))))"
    and "length (session w w') = Suc (chunk_count (length snap_data)) \<longrightarrow>
           res = (if str_in SNAPSHOT_ERR (snd (last (session w w')))
                  then Inl (GdbError ''Saving snapshot failed!'') else Inr ())"
proof -
  from load_run [OF assms] obtain S where
    S: "exchanges w' = exchanges w @ S" "S \<noteq> []"
      "length S \<le> Suc (chunk_count (length snap_data))"
      "map fst S = take (length S) (load_cmds snap_data argv)"
      "\<forall>j. Suc j < length S \<longrightarrow> ack_ok snap_data j (snd (S ! j))"
      "length S \<le> chunk_count (length snap_data) \<longrightarrow>
           \<not> ack_ok snap_data (length S - 1) (snd (last S))
           \<and> res = Inl (chunk_failure (length S - 1) (snd (last S)))"
      "length S = Suc (chunk_count (length snap_data)) \<longrightarrow>
           res = (if str_in SNAPSHOT_ERR (snd (last S))
                  then Inl (GdbError ''Saving snapshot failed!'') else Inr ())"
    by blast
  from S(1) have eq: "session w w' = S" by (simp add: session_def)
  from S show "exchanges w' = exchanges w @ session w w'"
    and "session w w' \<noteq> []"
    and "length (session w w') \<le> Suc (chunk_count (length snap_data))"
    and "map fst (session w w') = take (length (session w w')) (load_cmds snap_data argv)"
    and "\<forall>j. Suc j < length (session w w') \<longrightarrow> ack_ok snap_data j (snd (session w w' ! j))"
    and "length (session w w') \<le> chunk_count (length snap_data) \<longrightarrow>
           \<not> ack_ok snap_data (length (session w w') - 1) (snd (last (session w w')))
           \<and> res = Inl (chunk_failure (length (session w w') - 1) (snd (last (session w w'))))"
    and "length (session w w') = Suc (chunk_count (length snap_data)) \<longrightarrow>
           res = (if str_in SNAPSHOT_ERR (snd (last (session w w')))
                  then Inl (GdbError ''Saving snapshot failed!'') else Inr ())"
    unfolding eq by blast+
qed

lemma sent_session:
  "exchanges w' = exchanges w @ session w w' \<Longrightarrow> sent w' = sent w @ map fst (session w w')"
  by (simp add: sent_def)

lemma ceil_div_1024:
  fixes n :: nat
  shows "(n + 1023) div 1024 = (if n mod 1024 = 0 then n div 1024 else Suc (n div 1024))"
proof -
  define q r where "q = n div 1024" and "r = n mod 1024"
  have n: "n = 1024 * q + r" and r: "r < 1024" by (simp_all add: q_def r_def)
  show ?thesis
  proof (cases "r = 0")
    case True
    have "(n + 1023) div 1024 = q"
    proof (rule div_nat_eqI)
      show "1024 * q \<le> n + 1023" using n by simp
      show "n + 1023 < 1024 * Suc q" using n True by simp
    qed
    with True show ?thesis by (simp add: q_def r_def)
  next
    case False
    have "(n + 1023) div 1024 = Suc q"
    proof (rule div_nat_eqI)
      show "1024 * Suc q \<le> n + 1023" using n False by simp
      show "n + 1023 < 1024 * Suc (Suc q)" using n r by simp
    qed
    with False show ?thesis by (simp add: q_def r_def)
  qed
qed

lemma last_chunk_size:
  fixes n :: nat
  assumes "0 < n"
  shows "n - 1024 * ((n + 1023) div 1024 - 1) = (if n mod 1024 = 0 then 1024 else n mod 1024)"
proof -
  define q r where "q = n div 1024" and "r = n mod 1024"
  have n: "n = 1024 * q + r" and r: "r < 1024" by (simp_all add: q_def r_def)
  show ?thesis
  proof (cases "r = 0")
    case True
    with assms n have "0 < q" by linarith
    moreover from True have "(n + 1023) div 1024 = q"
      by (simp add: ceil_div_1024 q_def r_def)
    ultimately have "n - 1024 * ((n + 1023) div 1024 - 1) = 1024"
      using n True by simp
    with True show ?thesis by (simp add: r_def)
  next
    case False
    then have "(n + 1023) div 1024 = Suc q"
      by (simp add: ceil_div_1024 q_def r_def)
    then have "n - 1024 * ((n + 1023) div 1024 - 1) = r"
      using n by simp
    with False show ?thesis by (simp add: r_def)
  qed
qed

lemma chunk_count_ceil: "0 < n \<Longrightarrow> chunk_count n = (n + 1023) div 1024"
  by (simp add: chunk_count_def max_def ceil_div_1024)

lemma chunk_count_cover: "n \<le> 1024 * chunk_count n"
proof -
  define q r where "q = n div 1024" and "r = n mod 1024"
  have n: "n = 1024 * q + r" and r: "r < 1024" by (simp_all add: q_def r_def)
  have "q \<le> chunk_count n" "r \<noteq> 0 \<longrightarrow> Suc q \<le> chunk_count n"
    by (simp_all add: chunk_count_def ceil_div_1024 q_def r_def)
  with n r show ?thesis by (cases "r = 0") simp_all
qed

lemma length_chunk: "length (chunk snap_data k) = min 1024 (length snap_data - 1024 * k)"
  by (simp add: chunk_def slice_def)

lemma concat_chunks: "concat (map (chunk snap_data) [0..<m]) = take (1024 * m) snap_data"
proof (induction m)
  case 0
  show ?case by simp
next
  case (Suc m)
  have "chunk snap_data m = take 1024 (drop (1024 * m) snap_data)"
    by (simp add: chunk_def slice_def)
  moreover have "take (1024 * m + 1024) snap_data
                   = take (1024 * m) snap_data @ take 1024 (drop (1024 * m) snap_data)"
    by (rule take_add)
  moreover have "1024 * Suc m = 1024 * m + 1024" by simp
  ultimately have "take (1024 * Suc m) snap_data = take (1024 * m) snap_data @ chunk snap_data m"
    by (simp only:)
  with Suc show ?case by (simp del: mult_Suc_right)
qed

lemma chunks_cover:
  "concat (map (chunk snap_data) [0..<chunk_count (length snap_data)]) = snap_data"
proof -
  have "length snap_data \<le> 1024 * chunk_count (length snap_data)"
    by (rule chunk_count_cover)
  then show ?thesis by (simp add: concat_chunks)
qed

lemma sum_chunk_lengths:
  "sum_list (map (\<lambda>k. length (chunk snap_data k)) [0..<chunk_count (length snap_data)])
     = length snap_data"
proof -
  have "length (concat (map (chunk snap_data) [0..<chunk_count (length snap_data)]))
          = sum_list (map (\<lambda>k. length (chunk snap_data k)) [0..<chunk_count (length snap_data)])"
    by (simp add: length_concat comp_def)
  then show ?thesis by (simp add: chunks_cover)
qed

lemma inner_chunk_full:
  assumes "Suc k < chunk_count (length snap_data)"
  shows "length (chunk snap_data k) = 1024"
proof -
  define n where "n = length snap_data"
  define q r where "q = n div 1024" and "r = n mod 1024"
  have n: "n = 1024 * q + r" and r: "r < 1024" by (simp_all add: q_def r_def)
  from assms have "Suc k < (if r = 0 then q else Suc q)"
    by (simp add: chunk_count_def ceil_div_1024 n_def q_def r_def split: if_splits)
  then have "1024 * k + 1024 \<le> n"
    using n by (cases "r = 0") simp_all
  then show ?thesis by (simp add: length_chunk n_def)
qed

lemma last_chunk_length:
  "length (chunk snap_data (chunk_count (length snap_data) - 1))
     = (if length snap_data = 0 then 0
        else if length snap_data mod 1024 = 0 then 1024
        else length snap_data mod 1024)"
proof -
  let ?n = "length snap_data"
  show ?thesis
  proof (cases "?n = 0")
    case True
    then show ?thesis by (simp add: length_chunk)
  next
    case False
    then have pos: "0 < ?n" by simp
    from last_chunk_size [OF pos]
    have "min 1024 (?n - 1024 * ((?n + 1023) div 1024 - 1))
            = (if ?n mod 1024 = 0 then 1024 else ?n mod 1024)"
      by (simp split: if_splits)
    with False pos show ?thesis
      by (simp add: length_chunk chunk_count_ceil)
  qed
qed

lemmas load_defs = SnapshotLoadCommand_invoke_def py_range.simps str_int_def str_nat.simps
  digit_char_def session_def

text \<open>
  Claim C2, as stated, does not hold for the empty blob: \<open>ceil(0 / 1024)\<close> is zero,
  but one data chunk, with an empty payload, is sent.
\<close>

theorem load_chunk_count_counterexample:
  "sent (snd (SnapshotLoadCommand_invoke scripted_gdb ''snap.qsp''
                (scripted_world [''0'', ''snap''] [''snap.qsp'' \<mapsto> []])))
     = [''monitor snapshot;load;data:;state:start'', ''monitor snapshot;load;state:done'']
   \<and> length (filter (prefix ''monitor snapshot;load;data:'')
         (sent (snd (SnapshotLoadCommand_invoke scripted_gdb ''snap.qsp''
                       (scripted_world [''0'', ''snap''] [''snap.qsp'' \<mapsto> []])))))
       \<noteq> (length ([] :: byte list) + 1023) div 1024"
  by (simp add: py_defs run_defs load_defs)

text \<open>
  Claim C2, amended. For every blob of \<open>n\<close> bytes the commands of a load are an initial
  segment of this sequence: the data chunks \<open>0, 1, ...\<close> in ascending offset order,
  \<open>max 1 (ceil(n / 1024))\<close> of them, the first with \<^verbatim>\<open>state:start\<close> and the
  others with \<^verbatim>\<open>state:cont\<close>, then the \<^verbatim>\<open>state:done\<close> command. The
  whole sequence is sent when every chunk is acknowledged with its length, and so whenever
  the load succeeds. The chunks put together are the blob, their lengths add up to \<open>n\<close>,
  every chunk but the last has 1024 bytes, and the last has \<open>n mod 1024\<close> bytes, or 1024
  when \<open>n\<close> is a positive multiple of 1024, or none when the blob is empty.
\<close>

theorem load_chunk_sequence:
  assumes argv: "string_to_argv g args = argv" "argv \<noteq> []" "length argv \<le> 2"
    and blob: "files w (argv ! 0) = Some snap_data"
    and run: "SnapshotLoadCommand_invoke g args w = (res, w')"
  shows "sent w' = sent w @ take (length (session w w')) (load_cmds snap_data argv)
       \<and> 1 \<le> length (session w w')
       \<and> ((\<forall>j < length (session w w'). j < chunk_count (length snap_data) \<longrightarrow>
               ack_ok snap_data j (snd (session w w' ! j)))
            \<longrightarrow> sent w' = sent w @ load_cmds snap_data argv)
       \<and> (res = Inr () \<longrightarrow> sent w' = sent w @ load_cmds snap_data argv)
       \<and> load_cmds snap_data argv
            = map (chunk_cmd snap_data) [0..<chunk_count (length snap_data)] @ [done_cmd argv]
       \<and> chunk_count (length snap_data)
            = (if length snap_data = 0 then 1 else (length snap_data + 1023) div 1024)
       \<and> concat (map (chunk snap_data) [0..<chunk_count (length snap_data)]) = snap_data
       \<and> sum_list (map (\<lambda>k. length (chunk snap_data k)) [0..<chunk_count (length snap_data)])
            = length snap_data
       \<and> (\<forall>k. Suc k < chunk_count (length snap_data) \<longrightarrow> length (chunk snap_data k) = 1024)
       \<and> length (chunk snap_data (chunk_count (length snap_data) - 1))
            = (if length snap_data = 0 then 0
               else if length snap_data mod 1024 = 0 then 1024
               else length snap_data mod 1024)"
proof -
  let ?S = "session w w'" and ?C = "chunk_count (length snap_data)"
  note s = load_session [OF argv blob run]
  have cmds_len: "length (load_cmds snap_data argv) = Suc ?C"
    by (simp add: load_cmds_def)
  have sent: "sent w' = sent w @ take (length ?S) (load_cmds snap_data argv)"
    using sent_session [OF s(1)] s(4) by simp
  have pos: "1 \<le> length ?S" using s(2) by (cases ?S) simp_all
  have full: "sent w' = sent w @ load_cmds snap_data argv" if "length ?S = Suc ?C"
    using sent that cmds_len by simp
  have acked: "sent w' = sent w @ load_cmds snap_data argv"
    if a: "\<forall>j < length ?S. j < ?C \<longrightarrow> ack_ok snap_data j (snd (?S ! j))"
  proof (rule full, rule ccontr)
    assume "length ?S \<noteq> Suc ?C"
    with s(3) have short: "length ?S \<le> ?C" by simp
    with s(6) have "\<not> ack_ok snap_data (length ?S - 1) (snd (last ?S))" by simp
    moreover from s(2) have "last ?S = ?S ! (length ?S - 1)" by (rule last_conv_nth)
    moreover from pos short have "length ?S - 1 < length ?S" "length ?S - 1 < ?C" by simp_all
    ultimately show False using a by metis
  qed
  have ok: "sent w' = sent w @ load_cmds snap_data argv" if r: "res = Inr ()"
  proof (rule full, rule ccontr)
    assume "length ?S \<noteq> Suc ?C"
    with s(3) have "length ?S \<le> ?C" by simp
    with s(6) r show False by simp
  qed
  have count: "?C = (if length snap_data = 0 then 1 else (length snap_data + 1023) div 1024)"
    by (simp add: chunk_count_ceil) (simp add: chunk_count_def)
  from sent pos acked ok count chunks_cover [of snap_data] sum_chunk_lengths [of snap_data]
    inner_chunk_full [of _ snap_data] last_chunk_length [of snap_data]
  show ?thesis
    unfolding load_cmds_def by blast
qed

theorem load_chunk_sequence_witness:
  "string_to_argv scripted_gdb ''snap.qsp'' = [''snap.qsp'']
   \<and> chunk_count (length (replicate 2500 (7 :: byte))) = 3
   \<and> fst (SnapshotLoadCommand_invoke scripted_gdb ''snap.qsp''
             (scripted_world [''1024'', ''1024'', ''452'', ''snap'']
                [''snap.qsp'' \<mapsto> replicate 2500 7])) = Inr ()
   \<and> sent (snd (SnapshotLoadCommand_invoke scripted_gdb ''snap.qsp''
                   (scripted_world [''1024'', ''1024'', ''452'', ''snap'']
                      [''snap.qsp'' \<mapsto> replicate 2500 7])))
       = map (chunk_cmd (replicate 2500 7)) [0..<3] @ [''monitor snapshot;load;state:done'']
   \<and> length (chunk (replicate 2500 (7 :: byte)) 2) = 452"
proof -
  let ?w = "scripted_world [''1024'', ''1024'', ''452'', ''snap''] [''snap.qsp'' \<mapsto> replicate 2500 7]"
  let ?r = "SnapshotLoadCommand_invoke scripted_gdb ''snap.qsp'' ?w"
  have argv: "string_to_argv scripted_gdb ''snap.qsp'' = [''snap.qsp'']"
    by (simp add: scripted_gdb_def)
  have ne: "[''snap.qsp''] \<noteq> []" and le: "length [''snap.qsp''] \<le> 2" by simp_all
  have blob: "files ?w ([''snap.qsp''] ! 0) = Some (replicate 2500 7)"
    by (simp add: scripted_world_def)
  have run: "?r = (fst ?r, snd ?r)" by simp
  have ok: "fst ?r = Inr ()"
    by (simp add: py_defs run_defs load_defs)
  have count: "chunk_count (length (replicate 2500 (7 :: byte))) = 3"
    by (simp add: chunk_count_def)
  have start: "sent ?w = []" by (simp add: scripted_world_def sent_def)
  note facts = load_chunk_sequence [OF argv ne le blob run]
  from facts ok have "sent (snd ?r) = sent ?w @ load_cmds (replicate 2500 7) [''snap.qsp'']"
    by blast
  then have sent: "sent (snd ?r)
      = map (chunk_cmd (replicate 2500 7)) [0..<3] @ [''monitor snapshot;load;state:done'']"
    unfolding start load_cmds_def count by (simp add: done_cmd_def)
  from facts have "length (chunk (replicate 2500 (7 :: byte)) (chunk_count (length (replicate 2500 (7 :: byte))) - 1))
            = (if length (replicate 2500 (7 :: byte)) = 0 then 0
               else if length (replicate 2500 (7 :: byte)) mod 1024 = 0 then 1024
               else length (replicate 2500 (7 :: byte)) mod 1024)"
    by blast
  then have last: "length (chunk (replicate 2500 (7 :: byte)) 2) = 452"
    unfolding count by simp
  from argv count ok sent last show ?thesis by blast
qed

text \<open>
  Claim C3. When the answer to chunk \<open>k\<close> of a load is a number that differs from the
  number of bytes sent in that chunk, the load fails with the error
  \<^verbatim>\<open>Error sending snapshot data\<close>, and the exchange for chunk \<open>k\<close> is the last
  one of the session: no later chunk and no \<^verbatim>\<open>state:done\<close> command is sent.
\<close>

theorem load_chunk_mismatch_aborts:
  assumes argv: "string_to_argv g args = argv" "argv \<noteq> []" "length argv \<le> 2"
    and blob: "files w (argv ! 0) = Some snap_data"
    and run: "SnapshotLoadCommand_invoke g args w = (res, w')"
    and k: "k < chunk_count (length snap_data)" "k < length (session w w')"
    and ack: "py_int (snd (session w w' ! k)) = Some len_recv"
    and differs: "len_recv \<noteq> int (length (chunk snap_data k))"
  shows "fst (session w w' ! k) = chunk_cmd snap_data k
       \<and> res = Inl (GdbError (if k = 0
                                then ''Error sending snapshot data (State: start, len_recv: ''
                                     @ str_int len_recv @ '')!''
                                else ''Error sending snapshot data!''))
       \<and> length (session w w') = Suc k
       \<and> sent w' = sent w @ map (chunk_cmd snap_data) [0..<Suc k]"
proof -
  let ?S = "session w w'" and ?C = "chunk_count (length snap_data)"
  note s = load_session [OF argv blob run]
  from ack differs have bad: "\<not> ack_ok snap_data k (snd (?S ! k))"
    by (simp add: ack_ok_def)
  with s(5) have "\<not> Suc k < length ?S" by blast
  with k(2) have len: "length ?S = Suc k" by simp
  with k(1) have short: "length ?S \<le> ?C" by simp
  from s(2) len have "last ?S = ?S ! k" by (simp add: last_conv_nth)
  with s(6) short len have "res = Inl (chunk_failure k (snd (?S ! k)))" by simp
  with ack have res: "res = Inl (GdbError (if k = 0
                                then ''Error sending snapshot data (State: start, len_recv: ''
                                     @ str_int len_recv @ '')!''
                                else ''Error sending snapshot data!''))"
    by (simp add: chunk_failure_def)
  from s(4) len short have cmds: "map fst ?S = map (chunk_cmd snap_data) [0..<Suc k]"
    by (simp only: take_load_cmds)
  then have "map fst ?S ! k = map (chunk_cmd snap_data) [0..<Suc k] ! k" by simp
  with k(2) have cmd: "fst (?S ! k) = chunk_cmd snap_data k"
    by (simp add: nth_append del: upt_Suc)
  from sent_session [OF s(1)] cmds have "sent w' = sent w @ map (chunk_cmd snap_data) [0..<Suc k]"
    by simp
  with cmd res len show ?thesis by simp
qed

theorem load_chunk_mismatch_aborts_witness:
  "string_to_argv scripted_gdb ''snap.qsp'' = [''snap.qsp'']
   \<and> chunk_count (length (replicate 2500 (7 :: byte))) = 3
   \<and> length (chunk (replicate 2500 (7 :: byte)) 1) = 1024
   \<and> py_int (snd (session (scripted_world [''1024'', ''1000'', ''452'', ''snap'']
                               [''snap.qsp'' \<mapsto> replicate 2500 7])
                      (snd (SnapshotLoadCommand_invoke scripted_gdb ''snap.qsp''
                              (scripted_world [''1024'', ''1000'', ''452'', ''snap'']
                                 [''snap.qsp'' \<mapsto> replicate 2500 7]))) ! 1)) = Some 1000
   \<and> fst (SnapshotLoadCommand_invoke scripted_gdb ''snap.qsp''
             (scripted_world [''1024'', ''1000'', ''452'', ''snap'']
                [''snap.qsp'' \<mapsto> replicate 2500 7]))
       = Inl (GdbError ''Error sending snapshot data!'')
   \<and> sent (snd (SnapshotLoadCommand_invoke scripted_gdb ''snap.qsp''
                   (scripted_world [''1024'', ''1000'', ''452'', ''snap'']
                      [''snap.qsp'' \<mapsto> replicate 2500 7])))
       = map (chunk_cmd (replicate 2500 7)) [0..<2]
   \<and> py_int [CHR 0xA0, CHR ''5''] = Some 5
   \<and> fst (SnapshotLoadCommand_invoke scripted_gdb ''snap.qsp''
             (scripted_world [[CHR 0xA0, CHR ''5'']] [''snap.qsp'' \<mapsto> [1, 2, 3]]))
       = Inl (GdbError ''Error sending snapshot data (State: start, len_recv: 5)!'')"
proof -
  let ?w = "scripted_world [''1024'', ''1000'', ''452'', ''snap''] [''snap.qsp'' \<mapsto> replicate 2500 7]"
  let ?r = "SnapshotLoadCommand_invoke scripted_gdb ''snap.qsp'' ?w"
  have argv: "string_to_argv scripted_gdb ''snap.qsp'' = [''snap.qsp'']"
    by (simp add: scripted_gdb_def)
  have ne: "[''snap.qsp''] \<noteq> []" and le: "length [''snap.qsp''] \<le> 2" by simp_all
  have blob: "files ?w ([''snap.qsp''] ! 0) = Some (replicate 2500 7)"
    by (simp add: scripted_world_def)
  have run: "?r = (fst ?r, snd ?r)" by simp
  have count: "chunk_count (length (replicate 2500 (7 :: byte))) = 3"
    by (simp add: chunk_count_def)
  have k: "1 < chunk_count (length (replicate 2500 (7 :: byte)))" unfolding count by simp
  have answers: "map snd (session ?w (snd ?r)) = [''1024'', ''1000'']"
    by (simp add: py_defs run_defs load_defs)
  from arg_cong [OF answers, of length] have len: "length (session ?w (snd ?r)) = 2" by simp
  then have sentk: "1 < length (session ?w (snd ?r))" by simp
  from arg_cong [OF answers, of "\<lambda>xs. xs ! 1"] sentk have "snd (session ?w (snd ?r) ! 1) = ''1000''"
    by simp
  then have ack: "py_int (snd (session ?w (snd ?r) ! 1)) = Some 1000"
    by (simp add: py_defs)
  have size: "length (chunk (replicate 2500 (7 :: byte)) 1) = 1024"
    by (simp add: chunk_def slice_def)
  then have differs: "(1000 :: int) \<noteq> int (length (chunk (replicate 2500 (7 :: byte)) 1))" by simp
  have start: "sent ?w = []" by (simp add: scripted_world_def sent_def)
  from load_chunk_mismatch_aborts [OF argv ne le blob run k sentk ack differs]
  have "fst ?r = Inl (GdbError ''Error sending snapshot data!'')"
    and "sent (snd ?r) = sent ?w @ map (chunk_cmd (replicate 2500 7)) [0..<Suc 1]"
    by simp_all
  moreover have "Suc 1 = 2" by simp
  ultimately have "fst ?r = Inl (GdbError ''Error sending snapshot data!'')
    \<and> sent (snd ?r) = map (chunk_cmd (replicate 2500 7)) [0..<2]"
    unfolding start by (simp only: append_Nil)
  then have large: "fst ?r = Inl (GdbError ''Error sending snapshot data!'')"
    "sent (snd ?r) = map (chunk_cmd (replicate 2500 7)) [0..<2]" by simp_all
  let ?v = "scripted_world [[CHR 0xA0, CHR ''5'']] [''snap.qsp'' \<mapsto> [1, 2, 3]]"
  let ?q = "SnapshotLoadCommand_invoke scripted_gdb ''snap.qsp'' ?v"
  have blob': "files ?v ([''snap.qsp''] ! 0) = Some [1, 2, 3]"
    by (simp add: scripted_world_def)
  have run': "?q = (fst ?q, snd ?q)" by simp
  have k': "0 < chunk_count (length [1, 2, 3 :: byte])" by (simp add: chunk_count_def)
  have answer': "map snd (session ?v (snd ?q)) = [[CHR 0xA0, CHR ''5'']]"
    by (simp add: py_defs run_defs load_defs)
  from arg_cong [OF answer', of length] have sent': "0 < length (session ?v (snd ?q))" by simp
  from arg_cong [OF answer', of "\<lambda>xs. xs ! 0"] sent'
  have "snd (session ?v (snd ?q) ! 0) = [CHR 0xA0, CHR ''5'']" by simp
  moreover have five: "py_int [CHR 0xA0, CHR ''5''] = Some 5" by (simp add: py_defs)
  ultimately have ack': "py_int (snd (session ?v (snd ?q) ! 0)) = Some 5" by simp
  have differs': "(5 :: int) \<noteq> int (length (chunk [1, 2, 3 :: byte] 0))"
    by (simp add: chunk_def slice_def)
  have shown: "str_int 5 = ''5''"
    by (simp add: str_int_def str_nat.simps digit_char_def)
  from load_chunk_mismatch_aborts [OF argv ne le blob' run' k' sent' ack' differs'] shown
  have small: "fst ?q = Inl (GdbError ''Error sending snapshot data (State: start, len_recv: 5)!'')"
    by simp
  from argv count size ack large five small show ?thesis by blast
qed

text \<open>
  Claim C9. For the empty blob the load sends one \<^verbatim>\<open>state:start\<close> chunk whose
  payload is the empty hex string, and a further command, the \<^verbatim>\<open>state:done\<close>
  command, follows exactly when the answer to that chunk is the number 0.
\<close>

theorem load_empty_blob:
  assumes argv: "string_to_argv g args = argv" "argv \<noteq> []" "length argv \<le> 2"
    and blob: "files w (argv ! 0) = Some []"
    and run: "SnapshotLoadCommand_invoke g args w = (res, w')"
  shows "session w w' \<noteq> []
       \<and> fst (hd (session w w')) = ''monitor snapshot;load;data:;state:start''
       \<and> (1 < length (session w w') \<longleftrightarrow> py_int (snd (hd (session w w'))) = Some 0)
       \<and> sent w' = sent w @ (if py_int (snd (hd (session w w'))) = Some 0
                               then [''monitor snapshot;load;data:;state:start'', done_cmd argv]
                               else [''monitor snapshot;load;data:;state:start''])"
proof -
  let ?S = "session w w'"
  note s = load_session [OF argv blob run]
  have C0: "chunk_count 0 = 1" by (simp add: chunk_count_def)
  then have C: "chunk_count (length ([] :: byte list)) = 1" by simp
  have start: "chunk_cmd [] 0 = ''monitor snapshot;load;data:;state:start''"
    by (simp add: chunk_cmd_def chunk_def slice_def hex_def)
  have cmds: "load_cmds [] argv = [''monitor snapshot;load;data:;state:start'', done_cmd argv]"
    using start by (simp add: load_cmds_def C0)
  have ok: "ack_ok [] 0 r \<longleftrightarrow> py_int r = Some 0" for r
    by (simp add: ack_ok_def chunk_def slice_def)
  from s(2) obtain x xs where S: "?S = x # xs" by (cases ?S) auto
  from s(3) C S have len: "length xs \<le> 1" by simp
  have iff: "1 < length ?S \<longleftrightarrow> py_int (snd (hd ?S)) = Some 0"
  proof
    assume "1 < length ?S"
    with s(5) S have "ack_ok [] 0 (snd x)" by (auto dest: spec [of _ 0])
    with S ok show "py_int (snd (hd ?S)) = Some 0" by simp
  next
    assume a: "py_int (snd (hd ?S)) = Some 0"
    show "1 < length ?S"
    proof (rule ccontr)
      assume "\<not> 1 < length ?S"
      with S have xs: "xs = []" by simp
      with s(6) S C have "\<not> ack_ok [] 0 (snd x)" by simp
      with a S ok show False by simp
    qed
  qed
  from s(4) S cmds have first: "fst x = ''monitor snapshot;load;data:;state:start''"
    by simp
  have "map fst ?S = (if py_int (snd (hd ?S)) = Some 0
                       then [''monitor snapshot;load;data:;state:start'', done_cmd argv]
                       else [''monitor snapshot;load;data:;state:start''])"
  proof (cases "py_int (snd (hd ?S)) = Some 0")
    case True
    with iff S len have "length ?S = 2" by (cases xs) simp_all
    with s(4) cmds True show ?thesis by simp
  next
    case False
    with iff S have "length ?S = 1" by (cases xs) simp_all
    with s(4) cmds False show ?thesis by simp
  qed
  with sent_session [OF s(1)] iff first S show ?thesis by simp
qed

theorem load_empty_blob_witness:
  "string_to_argv scripted_gdb ''snap.qsp'' = [''snap.qsp'']
   \<and> sent (snd (SnapshotLoadCommand_invoke scripted_gdb ''snap.qsp''
                   (scripted_world [''0'', ''snap''] [''snap.qsp'' \<mapsto> []])))
       = [''monitor snapshot;load;data:;state:start'', ''monitor snapshot;load;state:done'']
   \<and> sent (snd (SnapshotLoadCommand_invoke scripted_gdb ''snap.qsp''
                   (scripted_world [''1'', ''snap''] [''snap.qsp'' \<mapsto> []])))
       = [''monitor snapshot;load;data:;state:start'']
   \<and> sent (snd (SnapshotLoadCommand_invoke scripted_gdb ''snap.qsp''
                   (scripted_world [[CHR 0xA0, CHR ''0''], ''snap''] [''snap.qsp'' \<mapsto> []])))
       = [''monitor snapshot;load;data:;state:start'', ''monitor snapshot;load;state:done'']"
proof -
  let ?w = "scripted_world [''0'', ''snap''] [''snap.qsp'' \<mapsto> []]"
  let ?v = "scripted_world [''1'', ''snap''] [''snap.qsp'' \<mapsto> []]"
  let ?u = "scripted_world [[CHR 0xA0, CHR ''0''], ''snap''] [''snap.qsp'' \<mapsto> []]"
  let ?p = "SnapshotLoadCommand_invoke scripted_gdb ''snap.qsp'' ?u"
  let ?r = "SnapshotLoadCommand_invoke scripted_gdb ''snap.qsp'' ?w"
  let ?q = "SnapshotLoadCommand_invoke scripted_gdb ''snap.qsp'' ?v"
  have argv: "string_to_argv scripted_gdb ''snap.qsp'' = [''snap.qsp'']"
    by (simp add: scripted_gdb_def)
  have ne: "[''snap.qsp''] \<noteq> []" and le: "length [''snap.qsp''] \<le> 2" by simp_all
  have blob: "files ?w ([''snap.qsp''] ! 0) = Some []" "files ?v ([''snap.qsp''] ! 0) = Some []"
    "files ?u ([''snap.qsp''] ! 0) = Some []"
    by (simp_all add: scripted_world_def)
  have run: "?r = (fst ?r, snd ?r)" "?q = (fst ?q, snd ?q)" "?p = (fst ?p, snd ?p)" by simp_all
  have first: "snd (hd (session ?w (snd ?r))) = ''0''" "snd (hd (session ?v (snd ?q))) = ''1''"
    "snd (hd (session ?u (snd ?p))) = [CHR 0xA0, CHR ''0'']"
    by (simp_all add: py_defs run_defs load_defs)
  have ack: "py_int ''0'' = Some 0" "py_int ''1'' \<noteq> Some 0" "py_int [CHR 0xA0, CHR ''0''] = Some 0"
    by (simp_all add: py_defs)
  have start: "sent ?w = []" "sent ?v = []" "sent ?u = []"
    by (simp_all add: scripted_world_def sent_def)
  from load_empty_blob [OF argv ne le blob(1) run(1)] load_empty_blob [OF argv ne le blob(2) run(2)]
    load_empty_blob [OF argv ne le blob(3) run(3)]
  show ?thesis
    unfolding first start using ack argv by (simp add: done_cmd_def)
qed

subsection \<open>The error sentinel\<close>

lemma session_same: "session w w = []"
  by (simp add: session_def)

lemma session_append: "exchanges w' = exchanges w @ S \<Longrightarrow> session w w' = S"
  by (simp add: session_def)

lemma create_sentinel:
  assumes run: "SnapshotCreateCommand_invoke g args w = (res, w')"
    and marked: "str_in SNAPSHOT_ERR (snd (last (session w w')))"
  shows "res = Inl (GdbError (''Snapshot creation failed! '' @ snd (last (session w w'))))"
proof -
  define name where "name = (if length (string_to_argv g args) = 0 then None
                             else Some (string_to_argv g args ! 0))"
  define cmd where "cmd = (if name \<noteq> None \<and> name \<noteq> Some [] then ''create;name:'' @ the name
                           else ''create'')"
  obtain ret_name w1 where sc: "snapshot_cmd g cmd w = (ret_name, w1)"
    by (cases "snapshot_cmd g cmd w")
  have body: "SnapshotCreateCommand_invoke g args w =
                (if (name \<noteq> None \<and> name \<noteq> Some [] \<and> \<not> ret_name = the name)
                    \<or> str_in SNAPSHOT_ERR ret_name
                 then (Inl (GdbError (''Snapshot creation failed! '' @ ret_name)), w1)
                 else (Inr (), gdb_write (''Created snapshot '' @ ret_name @ [CHR 0x0A]) w1))"
    using sc unfolding SnapshotCreateCommand_invoke_def name_def cmd_def Let_def
    by (simp split: prod.splits)
  from snapshot_cmd_eqD(1) [OF sc]
  have ex: "exchanges w1 = exchanges w @ [(''monitor snapshot;'' @ cmd, ret_name)]" .
  from body run ex have "exchanges w' = exchanges w @ [(''monitor snapshot;'' @ cmd, ret_name)]"
    by (auto simp: gdb_write_def split: if_splits)
  then have "snd (last (session w w')) = ret_name"
    by (simp add: session_def)
  with marked body run show ?thesis by simp
qed


lemma restore_sentinel:
  assumes run: "SnapshotRestoreCommand_invoke g args w = (res, w')"
    and sent: "session w w' \<noteq> []"
    and cmd: "prefix ''monitor snapshot;restore;'' (fst (last (session w w')))"
    and marked: "str_in SNAPSHOT_ERR (snd (last (session w w')))"
  shows "res = Inl (GdbError (''Restoring snapshot failed! '' @ snd (last (session w w'))))"
proof (cases "length (string_to_argv g args) = 1")
  case False
  with run have "w' = w" by (simp add: SnapshotRestoreCommand_invoke_def)
  with sent show ?thesis by (simp add: session_same)
next
  case True
  then obtain name where argv: "string_to_argv g args = [name]"
    by (cases "string_to_argv g args") auto
  obtain r w1 where gi: "get_snapshots_info g w = (r, w1)"
    by (cases "get_snapshots_info g w")
  from get_snapshots_info_eqD(1) [OF gi] obtain resp
    where ex1: "exchanges w1 = exchanges w @ [(''monitor snapshot;info'', resp)]" by blast
  have only_info: False if "w' = w1"
  proof -
    from that ex1 have "session w w' = [(''monitor snapshot;info'', resp)]"
      by (simp add: session_append)
    with cmd show False by simp
  qed
  show ?thesis
  proof (cases r)
    case (Inl e)
    with argv gi run have "w' = w1" by (simp add: SnapshotRestoreCommand_invoke_def)
    with only_info show ?thesis by simp
  next
    case (Inr info)
    show ?thesis
    proof (cases "info name")
      case None
      with argv gi Inr run have "w' = w1" by (simp add: SnapshotRestoreCommand_invoke_def)
      with only_info show ?thesis by simp
    next
      case (Some off)
      obtain ret_name w2 where sc: "snapshot_cmd g (''restore;name:'' @ name) w1 = (ret_name, w2)"
        by (cases "snapshot_cmd g (''restore;name:'' @ name) w1")
      from argv gi Inr Some sc
      have body: "SnapshotRestoreCommand_invoke g args w =
                    (if ret_name \<noteq> name \<or> str_in SNAPSHOT_ERR ret_name
                     then (Inl (GdbError (''Restoring snapshot failed! '' @ ret_name)), w2)
                     else (Inr (), gdb_write (''Restored snapshot '' @ ret_name @ [CHR 0x0A]) w2))"
        by (simp add: SnapshotRestoreCommand_invoke_def)
      from body run have "exchanges w' = exchanges w2"
        by (auto simp: gdb_write_def split: if_splits)
      with snapshot_cmd_eqD(1) [OF sc] ex1
      have "exchanges w' = exchanges w @ [(''monitor snapshot;info'', resp),
              (''monitor snapshot;restore;name:'' @ name, ret_name)]" by simp
      then have "snd (last (session w w')) = ret_name"
        by (simp add: session_def)
      with marked body run show ?thesis by simp
    qed
  qed
qed

lemma save_sentinel:
  assumes run: "SnapshotSaveCommand_invoke g args w = (res, w')"
    and sent: "session w w' \<noteq> []"
    and cmd: "prefix ''monitor snapshot;save;'' (fst (last (session w w')))"
    and marked: "str_in SNAPSHOT_ERR (snd (last (session w w')))"
  shows "res = Inl (GdbError ''Saving snapshot failed!'') \<and> files w' = files w"
proof (cases "length (string_to_argv g args) = 1")
  case False
  have "w' = w"
  proof (cases "length (string_to_argv g args) = 0 \<or> length (string_to_argv g args) > 2")
    case True
    with run show ?thesis by (simp add: SnapshotSaveCommand_invoke_def)
  next
    case outer: False
    with False have "py_index (string_to_argv g args) 2 = Inl IndexError"
      by (simp add: py_index_def)
    with False outer run show ?thesis by (simp add: SnapshotSaveCommand_invoke_def)
  qed
  with sent show ?thesis by (simp add: session_same)
next
  case True
  then obtain name where argv: "string_to_argv g args = [name]"
    by (cases "string_to_argv g args") auto
  obtain r w1 where gi: "get_snapshots_info g w = (r, w1)"
    by (cases "get_snapshots_info g w")
  from get_snapshots_info_eqD [OF gi] obtain resp
    where ex1: "exchanges w1 = exchanges w @ [(''monitor snapshot;info'', resp)]"
      and keep1: "files w1 = files w" by blast
  have only_info: False if "w' = w1"
  proof -
    from that ex1 have "session w w' = [(''monitor snapshot;info'', resp)]"
      by (simp add: session_append)
    with cmd show False by simp
  qed
  show ?thesis
  proof (cases r)
    case (Inl e)
    with argv gi run have "w' = w1" by (simp add: SnapshotSaveCommand_invoke_def)
    with only_info show ?thesis by simp
  next
    case (Inr info)
    show ?thesis
    proof (cases "info name")
      case None
      with argv gi Inr run have "w' = w1" by (simp add: SnapshotSaveCommand_invoke_def)
      with only_info show ?thesis by simp
    next
      case (Some off)
      show ?thesis
      proof (cases "path_exists w1 (dirname (''./'' @ name @ ''.qsp''))")
        case False
        with argv gi Inr Some run have "w' = w1" by (simp add: SnapshotSaveCommand_invoke_def)
        with only_info show ?thesis by simp
      next
        case True
        obtain snap_data w2 where sc: "snapshot_cmd g (''save;name:'' @ name) w1 = (snap_data, w2)"
          by (cases "snapshot_cmd g (''save;name:'' @ name) w1")
        from gi Inr have gi': "get_snapshots_info g w = (Inr info, w1)" by simp
        note reach = save_reaches_command [OF argv gi' Some True sc]
        from snapshot_cmd_eqD [OF sc] ex1 keep1
        have ex2: "exchanges w2 = exchanges w @ [(''monitor snapshot;info'', resp),
                     (''monitor snapshot;save;name:'' @ name, snap_data)]"
          and keep2: "files w2 = files w" by simp_all
        obtain r3 w3 where ws: "write_snapshot (''./'' @ name @ ''.qsp'') snap_data w2 = (r3, w3)"
          by (cases "write_snapshot (''./'' @ name @ ''.qsp'') snap_data w2")
        have last: "snd (last (session w w')) = snap_data"
        proof (cases "str_in SNAPSHOT_ERR snap_data")
          case True
          from reach(1) [OF True] run have "w' = w2" by simp
          with ex2 show ?thesis by (simp add: session_def)
        next
          case False
          have "exchanges w' = exchanges w3"
          proof (cases r3)
            case (Inl e)
            with reach(2) [OF False, of e w3] ws run show ?thesis by simp
          next
            case (Inr u)
            with reach(3) [OF False, of u w3] ws run show ?thesis by (simp add: gdb_write_def)
          qed
          with write_snapshot_eqD(1) [OF ws] ex2 show ?thesis by (simp add: session_def)
        qed
        with marked have "str_in SNAPSHOT_ERR snap_data" by simp
        from reach(1) [OF this] run keep2 show ?thesis by simp
      qed
    qed
  qed
qed

lemma load_rejected:
  assumes "\<not> (string_to_argv g args \<noteq> [] \<and> length (string_to_argv g args) \<le> 2
              \<and> files w (string_to_argv g args ! 0) \<noteq> None)"
  shows "snd (SnapshotLoadCommand_invoke g args w) = w"
  using assms
  by (auto simp: SnapshotLoadCommand_invoke_def path_exists_def Let_def)

lemma load_sentinel:
  assumes run: "SnapshotLoadCommand_invoke g args w = (res, w')"
    and sent: "session w w' \<noteq> []"
    and cmd: "prefix ''monitor snapshot;load;state:done'' (fst (last (session w w')))"
    and marked: "str_in SNAPSHOT_ERR (snd (last (session w w')))"
  shows "res = Inl (GdbError ''Saving snapshot failed!'')"
proof -
  define argv where "argv = string_to_argv g args"
  show ?thesis
  proof (cases "argv \<noteq> [] \<and> length argv \<le> 2 \<and> files w (argv ! 0) \<noteq> None")
    case False
    then have "snd (SnapshotLoadCommand_invoke g args w) = w"
      unfolding argv_def by (rule load_rejected)
    with run have "w' = w" by simp
    with sent show ?thesis by (simp add: session_same)
  next
    case True
    then obtain snap_data where argv: "string_to_argv g args = argv" "argv \<noteq> []" "length argv \<le> 2"
      and blob: "files w (argv ! 0) = Some snap_data"
      by (auto simp: argv_def)
    let ?S = "session w w'" and ?C = "chunk_count (length snap_data)"
    note s = load_session [OF argv blob run]
    have "length ?S = Suc ?C"
    proof (rule ccontr)
      assume "length ?S \<noteq> Suc ?C"
      with s(3) have short: "length ?S \<le> ?C" by simp
      with s(4) have "map fst ?S = map (chunk_cmd snap_data) [0..<length ?S]"
        by (simp only: take_load_cmds)
      moreover from s(2) have "last (map fst ?S) = fst (last ?S)" by (simp add: last_map)
      moreover from s(2) obtain m where m: "length ?S = Suc m" by (cases ?S) auto
      moreover have "last (map (chunk_cmd snap_data) [0..<Suc m]) = chunk_cmd snap_data m" by simp
      ultimately have "fst (last ?S) = chunk_cmd snap_data m" by simp
      with cmd show False by (simp add: chunk_cmd_def)
    qed
    with s(7) marked show ?thesis by simp
  qed
qed

text \<open>
  Claim C1, as stated, does not hold. The answer to a chunk of a load is handed to
  \<^verbatim>\<open>int\<close> without a test for the sentinel: an answer that contains the sentinel
  ends the load with the \<^verbatim>\<open>ValueError\<close> of that conversion. The
  \<^verbatim>\<open>info\<close> response is not tested either: one that contains the sentinel and has
  the shape of a record is returned as a catalog.
\<close>

theorem sentinel_counterexample:
  "str_in SNAPSHOT_ERR ''SNAPSHOT ERR: no memory''
   \<and> fst (SnapshotLoadCommand_invoke scripted_gdb ''snap.qsp''
             (scripted_world [''SNAPSHOT ERR: no memory''] [''snap.qsp'' \<mapsto> [1, 2, 3]]))
       = Inl ValueError
   \<and> str_in SNAPSHOT_ERR ''SNAPSHOT ERR:10''
   \<and> fst (get_snapshots_info scripted_gdb (scripted_world [''SNAPSHOT ERR:10''] Map.empty))
       = Inr [''SNAPSHOT ERR'' \<mapsto> 16]"
  by (simp add: py_defs run_defs load_defs)

text \<open>
  Claim C1, amended. For \<^verbatim>\<open>create\<close>, \<^verbatim>\<open>restore\<close>, \<^verbatim>\<open>save\<close> and
  the final \<^verbatim>\<open>state:done\<close> command of \<^verbatim>\<open>load\<close>: whenever the answer to
  that command contains the error sentinel, the operation fails with a
  \<^verbatim>\<open>gdb.GdbError\<close>; for \<^verbatim>\<open>save\<close> the files are then as before, so the
  answer has not been decoded.
\<close>

theorem sentinel_fails_checked_commands:
  "(SnapshotCreateCommand_invoke g a1 w1 = (r1, v1)
      \<and> str_in SNAPSHOT_ERR (snd (last (session w1 v1)))
    \<longrightarrow> r1 = Inl (GdbError (''Snapshot creation failed! '' @ snd (last (session w1 v1)))))
   \<and> (SnapshotRestoreCommand_invoke g a2 w2 = (r2, v2)
      \<and> session w2 v2 \<noteq> []
      \<and> prefix ''monitor snapshot;restore;'' (fst (last (session w2 v2)))
      \<and> str_in SNAPSHOT_ERR (snd (last (session w2 v2)))
    \<longrightarrow> r2 = Inl (GdbError (''Restoring snapshot failed! '' @ snd (last (session w2 v2)))))
   \<and> (SnapshotSaveCommand_invoke g a3 w3 = (r3, v3)
      \<and> session w3 v3 \<noteq> []
      \<and> prefix ''monitor snapshot;save;'' (fst (last (session w3 v3)))
      \<and> str_in SNAPSHOT_ERR (snd (last (session w3 v3)))
    \<longrightarrow> r3 = Inl (GdbError ''Saving snapshot failed!'') \<and> files v3 = files w3)
   \<and> (SnapshotLoadCommand_invoke g a4 w4 = (r4, v4)
      \<and> session w4 v4 \<noteq> []
      \<and> prefix ''monitor snapshot;load;state:done'' (fst (last (session w4 v4)))
      \<and> str_in SNAPSHOT_ERR (snd (last (session w4 v4)))
    \<longrightarrow> r4 = Inl (GdbError ''Saving snapshot failed!''))"
  using create_sentinel [of g a1 w1 r1 v1] restore_sentinel [of g a2 w2 r2 v2]
    save_sentinel [of g a3 w3 r3 v3] load_sentinel [of g a4 w4 r4 v4]
  by blast

theorem sentinel_fails_checked_commands_witness:
  "fst (SnapshotCreateCommand_invoke scripted_gdb ''alpha''
          (scripted_world [''SNAPSHOT ERR: exists''] Map.empty))
     = Inl (GdbError ''Snapshot creation failed! SNAPSHOT ERR: exists'')
   \<and> fst (SnapshotRestoreCommand_invoke scripted_gdb ''alpha''
             (scripted_world [''alpha:401000'', ''SNAPSHOT ERR: gone''] Map.empty))
       = Inl (GdbError ''Restoring snapshot failed! SNAPSHOT ERR: gone'')
   \<and> fst (SnapshotSaveCommand_invoke scripted_gdb ''alpha''
             (scripted_world [''alpha:401000'', ''SNAPSHOT ERR: busy''] Map.empty))
       = Inl (GdbError ''Saving snapshot failed!'')
   \<and> fst (SnapshotLoadCommand_invoke scripted_gdb ''snap.qsp''
             (scripted_world [''3'', ''SNAPSHOT ERR: bad blob''] [''snap.qsp'' \<mapsto> [1, 2, 3]]))
       = Inl (GdbError ''Saving snapshot failed!'')"
proof -
  let ?w1 = "scripted_world [''SNAPSHOT ERR: exists''] Map.empty"
  let ?w2 = "scripted_world [''alpha:401000'', ''SNAPSHOT ERR: gone''] Map.empty"
  let ?w3 = "scripted_world [''alpha:401000'', ''SNAPSHOT ERR: busy''] Map.empty"
  let ?w4 = "scripted_world [''3'', ''SNAPSHOT ERR: bad blob''] [''snap.qsp'' \<mapsto> [1, 2, 3]]"
  let ?c = "SnapshotCreateCommand_invoke scripted_gdb ''alpha'' ?w1"
  let ?r = "SnapshotRestoreCommand_invoke scripted_gdb ''alpha'' ?w2"
  let ?s = "SnapshotSaveCommand_invoke scripted_gdb ''alpha'' ?w3"
  let ?l = "SnapshotLoadCommand_invoke scripted_gdb ''snap.qsp'' ?w4"
  have s1: "session ?w1 (snd ?c) = [(''monitor snapshot;create;name:alpha'', ''SNAPSHOT ERR: exists'')]"
    by (simp add: py_defs run_defs session_def SnapshotCreateCommand_invoke_def)
  have s2: "session ?w2 (snd ?r) = [(''monitor snapshot;info'', ''alpha:401000''),
              (''monitor snapshot;restore;name:alpha'', ''SNAPSHOT ERR: gone'')]"
    by (simp add: py_defs run_defs session_def SnapshotRestoreCommand_invoke_def)
  have s3: "session ?w3 (snd ?s) = [(''monitor snapshot;info'', ''alpha:401000''),
              (''monitor snapshot;save;name:alpha'', ''SNAPSHOT ERR: busy'')]"
    by (simp add: py_defs run_defs session_def SnapshotSaveCommand_invoke_def)
  have s4: "session ?w4 (snd ?l) = [(''monitor snapshot;load;data:010203;state:start'', ''3''),
              (''monitor snapshot;load;state:done'', ''SNAPSHOT ERR: bad blob'')]"
    by (simp add: py_defs run_defs load_defs)
  have marked: "str_in SNAPSHOT_ERR ''SNAPSHOT ERR: exists''" "str_in SNAPSHOT_ERR ''SNAPSHOT ERR: gone''"
    "str_in SNAPSHOT_ERR ''SNAPSHOT ERR: busy''" "str_in SNAPSHOT_ERR ''SNAPSHOT ERR: bad blob''"
    by (simp_all add: SNAPSHOT_ERR_def)
  have h1: "?c = (fst ?c, snd ?c) \<and> str_in SNAPSHOT_ERR (snd (last (session ?w1 (snd ?c))))"
    unfolding s1 using marked by (simp del: str_in.simps)
  have h2: "?r = (fst ?r, snd ?r) \<and> session ?w2 (snd ?r) \<noteq> []
      \<and> prefix ''monitor snapshot;restore;'' (fst (last (session ?w2 (snd ?r))))
      \<and> str_in SNAPSHOT_ERR (snd (last (session ?w2 (snd ?r))))"
    unfolding s2 using marked by (simp del: str_in.simps)
  have h3: "?s = (fst ?s, snd ?s) \<and> session ?w3 (snd ?s) \<noteq> []
      \<and> prefix ''monitor snapshot;save;'' (fst (last (session ?w3 (snd ?s))))
      \<and> str_in SNAPSHOT_ERR (snd (last (session ?w3 (snd ?s))))"
    unfolding s3 using marked by (simp del: str_in.simps)
  have h4: "?l = (fst ?l, snd ?l) \<and> session ?w4 (snd ?l) \<noteq> []
      \<and> prefix ''monitor snapshot;load;state:done'' (fst (last (session ?w4 (snd ?l))))
      \<and> str_in SNAPSHOT_ERR (snd (last (session ?w4 (snd ?l))))"
    unfolding s4 using marked by (simp del: str_in.simps)
  from sentinel_fails_checked_commands [of scripted_gdb "''alpha''" ?w1 "fst ?c" "snd ?c"
         "''alpha''" ?w2 "fst ?r" "snd ?r" "''alpha''" ?w3 "fst ?s" "snd ?s"
         "''snap.qsp''" ?w4 "fst ?l" "snd ?l"] h1 h2 h3 h4
  have "fst ?c = Inl (GdbError (''Snapshot creation failed! '' @ snd (last (session ?w1 (snd ?c)))))"
    and "fst ?r = Inl (GdbError (''Restoring snapshot failed! '' @ snd (last (session ?w2 (snd ?r)))))"
    and "fst ?s = Inl (GdbError ''Saving snapshot failed!'')"
    and "fst ?l = Inl (GdbError ''Saving snapshot failed!'')"
    by blast+
  then show ?thesis unfolding s1 s2 by simp
qed

subsection \<open>snapshot delete\<close>

text \<open>
  Claim C6 describes a delete operation that checks the catalog and sends one command. The
  script registers the command but gives it no \<^verbatim>\<open>invoke\<close> method: run on a
  remote side that holds the snapshot \<^verbatim>\<open>alpha\<close>, it sends nothing, neither the
  catalog query nor a delete command, and ends with the error of gdb.
\<close>

theorem delete_sends_nothing:
  "fst (get_snapshots_info scripted_gdb (scripted_world [''alpha:401000'', ''OK''] Map.empty))
     = Inr [''alpha'' \<mapsto> 4198400]
   \<and> fst (SnapshotDeleteCommand_invoke scripted_gdb ''alpha''
             (scripted_world [''alpha:401000'', ''OK''] Map.empty)) = Inl NoInvoke
   \<and> sent (snd (SnapshotDeleteCommand_invoke scripted_gdb ''alpha''
                   (scripted_world [''alpha:401000'', ''OK''] Map.empty))) = []"
  by (simp add: py_defs run_defs SnapshotDeleteCommand_invoke_def)

end
